theory Spec2Isabelle
  imports Main "HOL-Library.Word"
begin

section \<open>Errors (utils/errors.go)\<close>

text \<open>
  \<^verbatim>\<open>CustomError\<close> is a struct with a status code, a message and optional details. The
  package declares five error variables, each a pointer to a struct of its own that all
  users of the variable share, and \<^verbatim>\<open>SetDetails\<close> writes the \<^verbatim>\<open>Details\<close> field of the
  struct it is called on and returns the same pointer. A returned \<^verbatim>\<open>*CustomError\<close> is therefore a reference to one of the
  five variables, and what a reader of that reference sees depends on the last
  \<^verbatim>\<open>SetDetails\<close> on it. The model keeps the references (\<open>ErrVar\<close>) apart from the
  memory they point to (the \<open>errDetails\<close> field of the process memory below).
  Every \<^verbatim>\<open>SetDetails\<close> call of the modelled code passes a string.
\<close>

record CustomError =
  Code :: int
  Message :: string
  Details :: "string option"

datatype ErrVar = ErrBadRequest | ErrUnauthorized | ErrForbidden | ErrNotFound | ErrInternalServer

fun errCode :: "ErrVar \<Rightarrow> int" where
  "errCode ErrBadRequest = 400"
| "errCode ErrUnauthorized = 401"
| "errCode ErrForbidden = 403"
| "errCode ErrNotFound = 404"
| "errCode ErrInternalServer = 500"

fun errMessage :: "ErrVar \<Rightarrow> string" where
  "errMessage ErrBadRequest = ''Bad Request''"
| "errMessage ErrUnauthorized = ''Unauthorized''"
| "errMessage ErrForbidden = ''Forbidden''"
| "errMessage ErrNotFound = ''Resource not found''"
| "errMessage ErrInternalServer = ''Internal server error''"

text \<open>
  A Go \<^verbatim>\<open>error\<close> value of the modelled code is either a plain error made by
  \<^verbatim>\<open>fmt.Errorf\<close> (its text) or a pointer to one of the package variables.
\<close>

datatype goerror = Plain string | Custom ErrVar

section \<open>Models (models/account.go, models/role.go)\<close>

text \<open>
  Go's \<^verbatim>\<open>int\<close> is modelled by \<open>int\<close>. The \<^verbatim>\<open>time.Time\<close> fields \<^verbatim>\<open>CreatedAt\<close> and
  \<^verbatim>\<open>UpdatedAt\<close> of the models are read by none of the functions below and are left out.
  Field names of different structs share one name space here, so the fields of \<^verbatim>\<open>Role\<close>,
  \<^verbatim>\<open>Permission\<close> and of the claim structs carry a prefix.
\<close>

record Account =
  ID :: int
  Username :: string
  Password :: string
  RoleID :: int
  RoleName :: string

record Role =
  role_ID :: int
  role_Name :: string

record Permission =
  perm_ID :: int
  perm_Name :: string
  perm_Description :: string


section \<open>Formatting (fmt.Sprintf with the verb d)\<close>

fun digits :: "nat \<Rightarrow> string" where
  "digits n = (if n < 10 then [''0123456789'' ! n] else digits (n div 10) @ [''0123456789'' ! (n mod 10)])"

declare digits.simps [simp del]

definition itoa :: "int \<Rightarrow> string" where
  "itoa i = (if i < 0 then CHR ''-'' # digits (nat (- i)) else digits (nat i))"

section \<open>Process memory\<close>

text \<open>
  The mutable memory that the modelled functions read and write:
  \<^item> \<open>errDetails\<close>: the \<^verbatim>\<open>Details\<close> field of each of the five error variables of package
    utils (\<open>None\<close> is Go's nil);
  \<^item> \<open>rolePermissionsCache\<close>: the field of that name of the one \<^verbatim>\<open>permissionServiceImpl\<close>
    that main creates, a \<^verbatim>\<open>map[int]map[string]bool\<close>;
  \<^item> \<open>repoQueries\<close>: a history variable that the source does not have. It records every
    call of \<^verbatim>\<open>permissionRepo.FindPermissionsByRoleID\<close> with its result, oldest first, so
    that statements about reaching the store can be written down.
  The mutex of the service is not modelled: the functions run one after the other.
\<close>

record memory =
  errDetails :: "ErrVar \<Rightarrow> string option"
  rolePermissionsCache :: "int \<rightharpoonup> (string \<rightharpoonup> bool)"
  repoQueries :: "(int \<times> (goerror + Permission list)) list"

definition SetDetails :: "ErrVar \<Rightarrow> string \<Rightarrow> memory \<Rightarrow> memory" where
  "SetDetails e details m = m\<lparr>errDetails := (errDetails m)(e := Some details)\<rparr>"

text \<open>What a reader of the pointer sees, for instance when the struct is serialised.\<close>

definition deref :: "memory \<Rightarrow> ErrVar \<Rightarrow> CustomError" where
  "deref m e = \<lparr>Code = errCode e, Message = errMessage e, Details = errDetails m e\<rparr>"

text \<open>The \<^verbatim>\<open>Error()\<close> method, which \<^verbatim>\<open>fmt\<close> calls for the verbs v and w.\<close>

fun Error :: "memory \<Rightarrow> goerror \<Rightarrow> string" where
  "Error m (Plain s) = s"
| "Error m (Custom e) =
     (case errDetails m e of
        Some d \<Rightarrow> ''Error '' @ itoa (errCode e) @ '': '' @ errMessage e @ '' (Details: '' @ d @ '')''
      | None \<Rightarrow> ''Error '' @ itoa (errCode e) @ '': '' @ errMessage e)"

text \<open>The memory of a process that has just started (\<^verbatim>\<open>NewPermissionService\<close> makes an empty map).\<close>

definition NewPermissionService :: memory where
  "NewPermissionService = \<lparr>errDetails = (\<lambda>_. None), rolePermissionsCache = Map.empty, repoQueries = []\<rparr>"

section \<open>Permission service (service/permission.go)\<close>

text \<open>
  \<^verbatim>\<open>permissionRepo\<close> is an interface; the one method used is
  \<^verbatim>\<open>FindPermissionsByRoleID\<close>, given here as a function from the role ID to an error or the
  rows. It is an argument of every call, so the store may answer differently from one
  call to the next.
\<close>

type_synonym PermissionRepository = "int \<Rightarrow> goerror + Permission list"

text \<open>The loop \<^verbatim>\<open>for _, p := range permissions { permissionMap[p.Name] = true }\<close>.\<close>

fun permissionMap :: "Permission list \<Rightarrow> (string \<rightharpoonup> bool) \<Rightarrow> (string \<rightharpoonup> bool)" where
  "permissionMap [] pm = pm"
| "permissionMap (p # ps) pm = permissionMap ps (pm(perm_Name p \<mapsto> True))"

definition loadPermissionsForRole :: "PermissionRepository \<Rightarrow> int \<Rightarrow> memory \<Rightarrow> goerror option \<times> memory" where
  "loadPermissionsForRole permissionRepo roleID m =
     (let r = permissionRepo roleID;
          m1 = m\<lparr>repoQueries := repoQueries m @ [(roleID, r)]\<rparr>
      in case r of
           Inl err \<Rightarrow>
             (Some (Plain (''failed to load permissions for role '' @ itoa roleID @ '': '' @ Error m1 err)), m1)
         | Inr permissions \<Rightarrow>
             (None, m1\<lparr>rolePermissionsCache :=
                          (rolePermissionsCache m1)(roleID \<mapsto> permissionMap permissions Map.empty)\<rparr>))"

definition HasPermission :: "PermissionRepository \<Rightarrow> int \<Rightarrow> string \<Rightarrow> memory \<Rightarrow> (bool \<times> goerror option) \<times> memory" where
  "HasPermission permissionRepo roleID permission m =
     (case rolePermissionsCache m roleID of
        Some rolePerms \<Rightarrow> ((rolePerms permission \<noteq> None, None), m)
      | None \<Rightarrow>
          (case loadPermissionsForRole permissionRepo roleID m of
             (Some err, m1) \<Rightarrow>
               ((False, Some (Custom ErrInternalServer)),
                SetDetails ErrInternalServer ''Failed to retrieve permissions'' m1)
           | (None, m1) \<Rightarrow>
               (case rolePermissionsCache m1 roleID of
                  Some rolePerms \<Rightarrow> ((rolePerms permission \<noteq> None, None), m1)
                | None \<Rightarrow>
                    ((False, Some (Custom ErrInternalServer)),
                     SetDetails ErrInternalServer ''Could not verify permission'' m1))))"

text \<open>A run of the service: the calls of a list, in order, each with the store as it is then.\<close>

fun calls :: "(PermissionRepository \<times> int \<times> string) list \<Rightarrow> memory \<Rightarrow> memory" where
  "calls [] m = m"
| "calls ((permissionRepo, roleID, permission) # cs) m =
     calls cs (snd (HasPermission permissionRepo roleID permission m))"

section \<open>Tokens (middleware/jwt.go over golang-jwt v5)\<close>

subsection \<open>The library: tokens, claims and their JSON form\<close>

text \<open>
  The library is not part of the repository; what the verifiers of jwt.go need of it is
  written out here from its version 5.

  A token string is given by what the parser finds in it. \<open>Malformed\<close> stands for every
  string that does not split into three base64url segments holding a JSON header and a
  JSON claims object. \<open>Compact method claims sig\<close> is a well-formed one: the signing method
  that the header's \<^verbatim>\<open>alg\<close> names (\<open>OtherMethod\<close> for every name that is not one of the
  three HMAC methods), the members of the claims object in their order, and the signature.
  Members are listed under the struct field that encoding/json resolves their key to; a
  later member for the same field overwrites an earlier one.

  JSON values are \<^verbatim>\<open>null\<close>, integer number literals, strings, arrays, and \<open>JOther\<close> for
  booleans and objects. Number literals with a fraction or an exponent, and numbers
  written as strings, are left out (the library would take them as a NumericDate); the
  tokens that this program issues carry integer seconds only, since
  \<^verbatim>\<open>jwt.TimePrecision\<close> is a second. The library reads a date through a \<^verbatim>\<open>float64\<close>,
  which is exact for the integers below \<open>2 ^ 53\<close> in magnitude. A \<open>JString\<close> holds the bytes
  of a string literal, escapes resolved; they need not be valid UTF-8, and both the writer
  and the reader of a literal coerce them (see \<open>coerceUTF8\<close> below).

  The MAC is symbolic: the signature that method \<open>a\<close> computes under key \<open>k\<close> over the
  claims \<open>p\<close> is the term \<open>HMAC a k p\<close> and nothing else, so two signatures agree exactly
  when method, key and claims agree.
\<close>

datatype SigningMethod = HS256 | HS384 | HS512 | OtherMethod string

datatype json = JNull | JNumber int | JString string | JArray "json list" | JOther

datatype signature = HMAC SigningMethod string "(string \<times> json) list" | Junk string

datatype tokenString = Malformed string | Compact SigningMethod "(string \<times> json) list" signature

text \<open>
  \<^verbatim>\<open>jwt.RegisteredClaims\<close>; the three dates are pointers to a NumericDate (\<open>None\<close> is nil), a
  NumericDate is a number of seconds since the epoch. \<^verbatim>\<open>AccessClaims\<close> and
  \<^verbatim>\<open>RefreshClaims\<close> embed the struct, here by record extension.
\<close>

record RegisteredClaims =
  Issuer :: string
  Subject :: string
  Audience :: "string list"
  ExpiresAt :: "int option"
  NotBefore :: "int option"
  IssuedAt :: "int option"
  JwtID :: string

record AccessClaims = RegisteredClaims +
  access_AccountID :: int
  access_Username :: string
  access_RoleID :: int

record RefreshClaims = RegisteredClaims +
  refresh_AccountID :: int

text \<open>
  Time. An instant is a number of nanoseconds since the epoch, a \<^verbatim>\<open>time.Duration\<close> a signed
  64-bit number of nanoseconds, whose multiplication wraps around.
  \<^verbatim>\<open>jwt.NewNumericDate\<close> truncates an instant to the second.
\<close>

definition Hour :: "64 word" where
  "Hour = 3600000000000"

definition hours :: "int \<Rightarrow> int" where
  "hours n = sint (Hour * (word_of_int n :: 64 word))"

definition NewNumericDate :: "int \<Rightarrow> int" where
  "NewNumericDate t = t div 1000000000"

text \<open>
  Strings in JSON. A Go string is a sequence of bytes. \<^verbatim>\<open>json.Marshal\<close> writes it as UTF-8:
  it goes through the string with \<^verbatim>\<open>utf8.DecodeRuneInString\<close> and writes U+FFFD, the three
  bytes EF BF BD, for every byte at which no valid encoding of a code point begins, and
  \<^verbatim>\<open>json.Unmarshal\<close> does the same with the bytes of a literal that it reads. \<open>runeWidth\<close>
  is the number of bytes of the encoding at the head of a string, by the table of the
  package utf8 (no overlong form, no surrogate half, nothing above U+10FFFF), and 0 when
  the head begins no valid encoding. \<open>coerceUTF8\<close> is the string so coerced, and
  \<open>validUTF8\<close> is \<^verbatim>\<open>utf8.ValidString\<close>.
\<close>

definition byte :: "char \<Rightarrow> nat" where
  "byte c = of_char c"

definition byteIn :: "nat \<Rightarrow> nat \<Rightarrow> char \<Rightarrow> bool" where
  "byteIn lo hi c \<longleftrightarrow> lo \<le> byte c \<and> byte c \<le> hi"

fun runeWidth :: "string \<Rightarrow> nat" where
  "runeWidth [] = 0"
| "runeWidth (c # cs) =
     (if byte c < 0x80 then 1
      else if byteIn 0xC2 0xDF c then
        (case cs of
           b1 # _ \<Rightarrow> if byteIn 0x80 0xBF b1 then 2 else 0
         | _ \<Rightarrow> 0)
      else if byteIn 0xE0 0xEF c then
        (case cs of
           b1 # b2 # _ \<Rightarrow>
             if byteIn (if byte c = 0xE0 then 0xA0 else 0x80) (if byte c = 0xED then 0x9F else 0xBF) b1 \<and>
                byteIn 0x80 0xBF b2
             then 3 else 0
         | _ \<Rightarrow> 0)
      else if byteIn 0xF0 0xF4 c then
        (case cs of
           b1 # b2 # b3 # _ \<Rightarrow>
             if byteIn (if byte c = 0xF0 then 0x90 else 0x80) (if byte c = 0xF4 then 0x8F else 0xBF) b1 \<and>
                byteIn 0x80 0xBF b2 \<and> byteIn 0x80 0xBF b3
             then 4 else 0
         | _ \<Rightarrow> 0)
      else 0)"

declare runeWidth.simps(2) [simp del]

function coerceUTF8 :: "string \<Rightarrow> string" where
  "coerceUTF8 [] = []"
| "coerceUTF8 (c # cs) =
     (if runeWidth (c # cs) = 0 then [CHR 0xEF, CHR 0xBF, CHR 0xBD] @ coerceUTF8 cs
      else take (runeWidth (c # cs)) (c # cs) @ coerceUTF8 (drop (runeWidth (c # cs)) (c # cs)))"
  by pat_completeness auto
termination
  by (relation "measure length") auto

function validUTF8 :: "string \<Rightarrow> bool" where
  "validUTF8 [] = True"
| "validUTF8 (c # cs) =
     (if runeWidth (c # cs) = 0 then False
      else validUTF8 (drop (runeWidth (c # cs)) (c # cs)))"
  by pat_completeness auto
termination
  by (relation "measure length") auto

declare coerceUTF8.simps(2) [simp del] validUTF8.simps(2) [simp del]

text \<open>
  \<^verbatim>\<open>json.Marshal\<close> of the claim structs: the struct's own fields in order, then those of
  the embedded \<^verbatim>\<open>RegisteredClaims\<close>, each of which is tagged \<^verbatim>\<open>omitempty\<close>; a field is
  left out by the value it holds, and a string that is written is written as UTF-8.
\<close>

definition marshalRegisteredClaims :: "'a RegisteredClaims_scheme \<Rightarrow> (string \<times> json) list" where
  "marshalRegisteredClaims c =
     (if Issuer c = [] then [] else [(''iss'', JString (coerceUTF8 (Issuer c)))]) @
     (if Subject c = [] then [] else [(''sub'', JString (coerceUTF8 (Subject c)))]) @
     (if Audience c = [] then []
      else [(''aud'', JArray (map (\<lambda>a. JString (coerceUTF8 a)) (Audience c)))]) @
     (case ExpiresAt c of None \<Rightarrow> [] | Some t \<Rightarrow> [(''exp'', JNumber t)]) @
     (case NotBefore c of None \<Rightarrow> [] | Some t \<Rightarrow> [(''nbf'', JNumber t)]) @
     (case IssuedAt c of None \<Rightarrow> [] | Some t \<Rightarrow> [(''iat'', JNumber t)]) @
     (if JwtID c = [] then [] else [(''jti'', JString (coerceUTF8 (JwtID c)))])"

definition marshalAccessClaims :: "AccessClaims \<Rightarrow> (string \<times> json) list" where
  "marshalAccessClaims c =
     [(''account_id'', JNumber (access_AccountID c)),
      (''username'', JString (coerceUTF8 (access_Username c))),
      (''role_id'', JNumber (access_RoleID c))] @ marshalRegisteredClaims c"

definition marshalRefreshClaims :: "RefreshClaims \<Rightarrow> (string \<times> json) list" where
  "marshalRefreshClaims c =
     [(''account_id'', JNumber (refresh_AccountID c))] @ marshalRegisteredClaims c"

text \<open>
  \<^verbatim>\<open>json.Unmarshal\<close> into a claim struct. Each member is decoded into the field it names;
  a member that names no field is skipped, a field that no member names keeps its zero
  value, and a value of the wrong kind for its field is an error (\<open>None\<close>). The first
  argument of a field decoder is the value, the second what the field holds so far:
  \<^verbatim>\<open>null\<close> leaves an \<^verbatim>\<open>int\<close>, a \<^verbatim>\<open>string\<close> and the audience as they are and sets a
  date pointer to nil. A string is read as UTF-8.
\<close>

fun decodeInt :: "json \<Rightarrow> int \<Rightarrow> int option" where
  "decodeInt JNull old = Some old"
| "decodeInt (JNumber n) old =
     (if - 9223372036854775808 \<le> n \<and> n \<le> 9223372036854775807 then Some n else None)"
| "decodeInt _ old = None"

fun decodeString :: "json \<Rightarrow> string \<Rightarrow> string option" where
  "decodeString JNull old = Some old"
| "decodeString (JString s) old = Some (coerceUTF8 s)"
| "decodeString _ old = None"

fun decodeNumericDate :: "json \<Rightarrow> int option option" where
  "decodeNumericDate JNull = Some None"
| "decodeNumericDate (JNumber n) = Some (Some n)"
| "decodeNumericDate _ = None"

fun decodeStrings :: "json list \<Rightarrow> string list option" where
  "decodeStrings [] = Some []"
| "decodeStrings (JString s # vs) = map_option ((#) (coerceUTF8 s)) (decodeStrings vs)"
| "decodeStrings (_ # vs) = None"

fun decodeClaimStrings :: "json \<Rightarrow> string list \<Rightarrow> string list option" where
  "decodeClaimStrings JNull old = Some old"
| "decodeClaimStrings (JString s) old = Some [coerceUTF8 s]"
| "decodeClaimStrings (JArray vs) old = decodeStrings vs"
| "decodeClaimStrings _ old = None"

definition decodeRegisteredField ::
  "string \<Rightarrow> json \<Rightarrow> 'a RegisteredClaims_scheme \<Rightarrow> 'a RegisteredClaims_scheme option" where
  "decodeRegisteredField k v c =
     (if k = ''iss'' then map_option (\<lambda>x. c\<lparr>Issuer := x\<rparr>) (decodeString v (Issuer c))
      else if k = ''sub'' then map_option (\<lambda>x. c\<lparr>Subject := x\<rparr>) (decodeString v (Subject c))
      else if k = ''aud'' then map_option (\<lambda>x. c\<lparr>Audience := x\<rparr>) (decodeClaimStrings v (Audience c))
      else if k = ''exp'' then map_option (\<lambda>x. c\<lparr>ExpiresAt := x\<rparr>) (decodeNumericDate v)
      else if k = ''nbf'' then map_option (\<lambda>x. c\<lparr>NotBefore := x\<rparr>) (decodeNumericDate v)
      else if k = ''iat'' then map_option (\<lambda>x. c\<lparr>IssuedAt := x\<rparr>) (decodeNumericDate v)
      else if k = ''jti'' then map_option (\<lambda>x. c\<lparr>JwtID := x\<rparr>) (decodeString v (JwtID c))
      else Some c)"

definition decodeAccessField :: "string \<Rightarrow> json \<Rightarrow> AccessClaims \<Rightarrow> AccessClaims option" where
  "decodeAccessField k v c =
     (if k = ''account_id'' then map_option (\<lambda>x. c\<lparr>access_AccountID := x\<rparr>) (decodeInt v (access_AccountID c))
      else if k = ''username'' then map_option (\<lambda>x. c\<lparr>access_Username := x\<rparr>) (decodeString v (access_Username c))
      else if k = ''role_id'' then map_option (\<lambda>x. c\<lparr>access_RoleID := x\<rparr>) (decodeInt v (access_RoleID c))
      else decodeRegisteredField k v c)"

definition decodeRefreshField :: "string \<Rightarrow> json \<Rightarrow> RefreshClaims \<Rightarrow> RefreshClaims option" where
  "decodeRefreshField k v c =
     (if k = ''account_id'' then map_option (\<lambda>x. c\<lparr>refresh_AccountID := x\<rparr>) (decodeInt v (refresh_AccountID c))
      else decodeRegisteredField k v c)"

fun decodeMembers :: "(string \<Rightarrow> json \<Rightarrow> 'c \<Rightarrow> 'c option) \<Rightarrow> (string \<times> json) list \<Rightarrow> 'c \<Rightarrow> 'c option" where
  "decodeMembers f [] c = Some c"
| "decodeMembers f ((k, v) # members) c =
     (case f k v c of None \<Rightarrow> None | Some c' \<Rightarrow> decodeMembers f members c')"

text \<open>The zero values \<^verbatim>\<open>&AccessClaims{}\<close> and \<^verbatim>\<open>&RefreshClaims{}\<close> that the verifiers pass in.\<close>

definition emptyAccessClaims :: AccessClaims where
  "emptyAccessClaims =
     \<lparr>Issuer = [], Subject = [], Audience = [], ExpiresAt = None, NotBefore = None, IssuedAt = None,
      JwtID = [], access_AccountID = 0, access_Username = [], access_RoleID = 0\<rparr>"

definition emptyRefreshClaims :: RefreshClaims where
  "emptyRefreshClaims =
     \<lparr>Issuer = [], Subject = [], Audience = [], ExpiresAt = None, NotBefore = None, IssuedAt = None,
      JwtID = [], refresh_AccountID = 0\<rparr>"

definition unmarshalAccessClaims :: "(string \<times> json) list \<Rightarrow> AccessClaims option" where
  "unmarshalAccessClaims members = decodeMembers decodeAccessField members emptyAccessClaims"

definition unmarshalRefreshClaims :: "(string \<times> json) list \<Rightarrow> RefreshClaims option" where
  "unmarshalRefreshClaims members = decodeMembers decodeRefreshField members emptyRefreshClaims"

subsection \<open>The library: signing and parsing\<close>

text \<open>
  \<^verbatim>\<open>NewWithClaims(method, claims).SignedString(key)\<close>. With an HMAC method and a byte-slice
  key it has no failing case; the result is a sum because the source tests for an error.
\<close>

definition SignedString :: "SigningMethod \<Rightarrow> (string \<times> json) list \<Rightarrow> string \<Rightarrow> goerror + tokenString" where
  "SignedString method members key = Inr (Compact method members (HMAC method key members))"

definition Verify :: "SigningMethod \<Rightarrow> (string \<times> json) list \<Rightarrow> signature \<Rightarrow> string \<Rightarrow> bool" where
  "Verify method members sig key = (sig = HMAC method key members)"

text \<open>
  The default validator: \<^verbatim>\<open>exp\<close>, when present, must be after now; \<^verbatim>\<open>nbf\<close>, when
  present, must not be after now; \<^verbatim>\<open>iat\<close>, issuer, subject and audience are not checked
  without the parser options that ask for it, and the verifiers pass none.
\<close>

definition Validate :: "'a RegisteredClaims_scheme \<Rightarrow> int \<Rightarrow> bool" where
  "Validate claims now =
     ((case ExpiresAt claims of None \<Rightarrow> True | Some t \<Rightarrow> now < t * 1000000000) \<and>
      (case NotBefore claims of None \<Rightarrow> True | Some t \<Rightarrow> t * 1000000000 \<le> now))"

text \<open>
  \<^verbatim>\<open>jwt.ParseWithClaims\<close>: decode, ask the key function for the key, check the signature,
  validate the claims at the reading \<open>now\<close> of the clock. On success the token's
  \<^verbatim>\<open>Valid\<close> flag, the second component, is true.
\<close>

definition ParseWithClaims ::
  "tokenString \<Rightarrow> ((string \<times> json) list \<Rightarrow> 'a RegisteredClaims_scheme option) \<Rightarrow>
   (SigningMethod \<Rightarrow> goerror + string) \<Rightarrow> int \<Rightarrow> goerror + ('a RegisteredClaims_scheme \<times> bool)" where
  "ParseWithClaims tokenString unmarshal keyFunc now =
     (case tokenString of
        Malformed s \<Rightarrow> Inl (Plain ''token is malformed'')
      | Compact method members sig \<Rightarrow>
          (case unmarshal members of
             None \<Rightarrow> Inl (Plain ''token is malformed'')
           | Some claims \<Rightarrow>
               (case keyFunc method of
                  Inl err \<Rightarrow> Inl (Plain ''token is unverifiable'')
                | Inr key \<Rightarrow>
                    if \<not> Verify method members sig key then Inl (Plain ''token signature is invalid'')
                    else if \<not> Validate claims now then Inl (Plain ''token has invalid claims'')
                    else Inr (claims, True))))"

subsection \<open>jwt.go\<close>

text \<open>
  \<^verbatim>\<open>GenerateAuthTokens\<close> returns the two token strings and an error, the strings empty when
  the error is not nil; the empty string is \<open>Malformed []\<close>. It reads the clock four times,
  in this order: for the expiry and for the issue time of the access token, then for
  those of the refresh token. The four readings are the argument \<open>now\<close>.
\<close>

definition GenerateAuthTokens ::
  "Account \<Rightarrow> string \<Rightarrow> int \<Rightarrow> int \<Rightarrow> int \<times> int \<times> int \<times> int \<Rightarrow> memory \<Rightarrow>
   (tokenString \<times> tokenString \<times> goerror option) \<times> memory" where
  "GenerateAuthTokens account secret accessExpiresHours refreshExpiresHours now m =
     (case now of (now1, now2, now3, now4) \<Rightarrow>
        (let accessClaims =
               \<lparr>Issuer = ''fastener-api'', Subject = itoa (ID account), Audience = [],
                ExpiresAt = Some (NewNumericDate (now1 + hours accessExpiresHours)),
                NotBefore = None, IssuedAt = Some (NewNumericDate now2), JwtID = [],
                access_AccountID = ID account, access_Username = Username account,
                access_RoleID = RoleID account\<rparr>
         in case SignedString HS256 (marshalAccessClaims accessClaims) secret of
              Inl err \<Rightarrow>
                ((Malformed [], Malformed [], Some (Custom ErrInternalServer)),
                 SetDetails ErrInternalServer ''Failed to generate access token'' m)
            | Inr accessToken \<Rightarrow>
                (let refreshClaims =
                       \<lparr>Issuer = ''fastener-api'', Subject = itoa (ID account), Audience = [],
                        ExpiresAt = Some (NewNumericDate (now3 + hours refreshExpiresHours)),
                        NotBefore = None, IssuedAt = Some (NewNumericDate now4), JwtID = [],
                        refresh_AccountID = ID account\<rparr>
                 in case SignedString HS256 (marshalRefreshClaims refreshClaims) secret of
                      Inl err \<Rightarrow>
                        ((Malformed [], Malformed [], Some (Custom ErrInternalServer)),
                         SetDetails ErrInternalServer ''Failed to generate refresh token'' m)
                    | Inr refreshToken \<Rightarrow> ((accessToken, refreshToken, None), m))))"

text \<open>The key function that both verifiers pass: an HMAC method or an error.\<close>

fun algName :: "SigningMethod \<Rightarrow> string" where
  "algName HS256 = ''HS256''"
| "algName HS384 = ''HS384''"
| "algName HS512 = ''HS512''"
| "algName (OtherMethod a) = a"

fun isSigningMethodHMAC :: "SigningMethod \<Rightarrow> bool" where
  "isSigningMethodHMAC (OtherMethod a) = False"
| "isSigningMethodHMAC _ = True"

definition keyFunc :: "string \<Rightarrow> SigningMethod \<Rightarrow> goerror + string" where
  "keyFunc secret method =
     (if \<not> isSigningMethodHMAC method then Inl (Plain (''unexpected signing method: '' @ algName method))
      else Inr secret)"

definition VerifyRefreshToken :: "tokenString \<Rightarrow> string \<Rightarrow> int \<Rightarrow> memory \<Rightarrow> (goerror + RefreshClaims) \<times> memory" where
  "VerifyRefreshToken tokenString secret now m =
     (case ParseWithClaims tokenString unmarshalRefreshClaims (keyFunc secret) now of
        Inl err \<Rightarrow> (Inl (Custom ErrUnauthorized), SetDetails ErrUnauthorized ''Invalid refresh token'' m)
      | Inr (claims, valid) \<Rightarrow>
          if \<not> valid then (Inl (Custom ErrUnauthorized), SetDetails ErrUnauthorized ''Invalid refresh token'' m)
          else (Inr claims, m))"

text \<open>\<^verbatim>\<open>VerifyToken\<close> returns an \<^verbatim>\<open>interface{}\<close> that holds one of the two claim structs.\<close>

datatype claims = OfAccess AccessClaims | OfRefresh RefreshClaims

definition VerifyToken :: "string \<Rightarrow> tokenString \<Rightarrow> bool \<Rightarrow> int \<Rightarrow> memory \<Rightarrow> (goerror + claims) \<times> memory" where
  "VerifyToken Secret tokenString needsRefresh now m =
     (if needsRefresh then
        (case VerifyRefreshToken tokenString Secret now m of
           (Inl err, m1) \<Rightarrow> (Inl err, m1)
         | (Inr c, m1) \<Rightarrow> (Inr (OfRefresh c), m1))
      else
        (case ParseWithClaims tokenString unmarshalAccessClaims (keyFunc Secret) now of
           Inl err \<Rightarrow> (Inl (Custom ErrUnauthorized), SetDetails ErrUnauthorized ''Invalid token'' m)
         | Inr (claims, valid) \<Rightarrow>
             if \<not> valid then (Inl (Custom ErrUnauthorized), SetDetails ErrUnauthorized ''Invalid token'' m)
             else (Inr (OfAccess claims), m)))"

section \<open>Authorization middleware (middleware/authz.go)\<close>

text \<open>
  What a middleware or handler does with a request: hand it to the next handler, write a
  JSON response with a status, or return an error to the framework.
\<close>

datatype body = ErrorBody CustomError | AccountBody Account

datatype response = Next | JSON int body | Return goerror

text \<open>
  \<open>ctxClaims\<close> is the outcome of \<^verbatim>\<open>c.Get("claims").(*jwt.AccessClaims)\<close>: \<open>None\<close> when the
  assertion fails or the pointer is nil. A response body that is one of the error
  variables is serialised when it is written, with the details the variable has then.
\<close>

definition Authorize :: "string \<Rightarrow> PermissionRepository \<Rightarrow> AccessClaims option \<Rightarrow> memory \<Rightarrow> response \<times> memory" where
  "Authorize permission permissionRepo ctxClaims m =
     (case ctxClaims of
        None \<Rightarrow>
          (let m1 = SetDetails ErrUnauthorized ''Invalid or missing authentication credentials'' m
           in (JSON 401 (ErrorBody (deref m1 ErrUnauthorized)), m1))
      | Some claims \<Rightarrow>
          if access_RoleID claims = 1 then (Next, m)
          else
            (case HasPermission permissionRepo (access_RoleID claims) permission m of
               ((hasPermission, Some err), m1) \<Rightarrow> (JSON 500 (ErrorBody (deref m1 ErrInternalServer)), m1)
             | ((hasPermission, None), m1) \<Rightarrow>
                 if \<not> hasPermission then
                   (let m2 = SetDetails ErrForbidden ''Insufficient permissions to perform this action'' m1
                    in (JSON 403 (ErrorBody (deref m2 ErrForbidden)), m2))
                 else (Next, m1)))"

section \<open>Session service (service/company.go, utils/validator.go, handler/auth.go)\<close>

text \<open>
  The collaborators of \<^verbatim>\<open>authServiceImpl\<close>. The two repositories are interfaces over the
  database; of each, the methods that the service calls are fields here. A lookup returns
  an error, or nil for no row (\<open>None\<close>), or the row. \<^verbatim>\<open>Create\<close> returns the new row's ID,
  which the implementation writes into the account it was given. The two bcrypt
  functions are those of golang.org/x/crypto; generating a hash draws a random salt, so
  nothing is assumed of the function but its type.
\<close>

record AccountRepository =
  FindByUsername :: "string \<Rightarrow> goerror + Account option"
  FindByID :: "int \<Rightarrow> goerror + Account option"
  Create :: "Account \<Rightarrow> goerror + int"

record RoleRepository =
  role_FindByID :: "int \<Rightarrow> goerror + Role option"

record bcrypt =
  GenerateFromPassword :: "string \<Rightarrow> goerror + string"
  CompareHashAndPassword :: "string \<Rightarrow> string \<Rightarrow> goerror option"

record authServiceImpl =
  accountRepo :: AccountRepository
  roleRepo :: RoleRepository
  jwtSecret :: string
  jwtAccessExpires :: int
  jwtRefreshExpires :: int


definition CheckPasswordHash :: "bcrypt \<Rightarrow> string \<Rightarrow> string \<Rightarrow> bool" where
  "CheckPasswordHash bc password hash =
     (case CompareHashAndPassword bc hash password of Some err \<Rightarrow> False | None \<Rightarrow> True)"

definition Login ::
  "bcrypt \<Rightarrow> authServiceImpl \<Rightarrow> string \<Rightarrow> string \<Rightarrow> int \<times> int \<times> int \<times> int \<Rightarrow> memory \<Rightarrow>
   (goerror + tokenString \<times> tokenString \<times> Account) \<times> memory" where
  "Login bc s username password now m =
     (case FindByUsername (accountRepo s) username of
        Inl err \<Rightarrow> (Inl (Custom ErrInternalServer), m)
      | Inr None \<Rightarrow> (Inl (Custom ErrUnauthorized), SetDetails ErrUnauthorized ''Invalid credentials'' m)
      | Inr (Some account) \<Rightarrow>
          if \<not> CheckPasswordHash bc password (Password account) then
            (Inl (Custom ErrUnauthorized), SetDetails ErrUnauthorized ''Invalid credentials'' m)
          else
            (case role_FindByID (roleRepo s) (RoleID account) of
               Inl err \<Rightarrow> (Inl (Custom ErrInternalServer), m)
             | Inr None \<Rightarrow>
                 (Inl (Custom ErrInternalServer),
                  SetDetails ErrInternalServer ''Account role not configured correctly'' m)
             | Inr (Some role) \<Rightarrow>
                 (let account1 = account\<lparr>RoleName := role_Name role\<rparr>
                  in case GenerateAuthTokens account1 (jwtSecret s) (jwtAccessExpires s) (jwtRefreshExpires s) now m of
                       ((accessToken, refreshToken, Some err), m1) \<Rightarrow> (Inl (Custom ErrInternalServer), m1)
                     | ((accessToken, refreshToken, None), m1) \<Rightarrow>
                         (Inr (accessToken, refreshToken, account1), m1))))"


text \<open>
  \<^verbatim>\<open>RefreshToken\<close>: \<open>now0\<close> is the clock reading of the verification, \<open>now\<close> the four
  readings of \<^verbatim>\<open>GenerateAuthTokens\<close>.
\<close>

definition RefreshToken ::
  "authServiceImpl \<Rightarrow> tokenString \<Rightarrow> int \<Rightarrow> int \<times> int \<times> int \<times> int \<Rightarrow> memory \<Rightarrow> (goerror + tokenString) \<times> memory" where
  "RefreshToken s refreshToken now0 now m =
     (case VerifyRefreshToken refreshToken (jwtSecret s) now0 m of
        (Inl err, m1) \<Rightarrow>
          (Inl (Custom ErrUnauthorized), SetDetails ErrUnauthorized ''Invalid or expired refresh token'' m1)
      | (Inr claims, m1) \<Rightarrow>
          (case FindByID (accountRepo s) (refresh_AccountID claims) of
             Inl err \<Rightarrow> (Inl (Custom ErrInternalServer), m1)
           | Inr None \<Rightarrow>
               (Inl (Custom ErrUnauthorized),
                SetDetails ErrUnauthorized ''Invalid refresh token: Account not found'' m1)
           | Inr (Some account) \<Rightarrow>
               (case GenerateAuthTokens account (jwtSecret s) (jwtAccessExpires s) (jwtRefreshExpires s) now m1 of
                  ((newAccessToken, newRefreshToken, Some err), m2) \<Rightarrow> (Inl (Custom ErrInternalServer), m2)
                | ((newAccessToken, newRefreshToken, None), m2) \<Rightarrow> (Inr newAccessToken, m2))))"


section \<open>Notions used in the statements\<close>

text \<open>
  The cache invariant: a role has an entry exactly when the history holds a successful
  store query for it, and the entry is then the map built from that query's rows.
\<close>

definition cacheInvariant :: "memory \<Rightarrow> bool" where
  "cacheInvariant m \<longleftrightarrow>
     (\<forall>roleID. (rolePermissionsCache m roleID \<noteq> None) = (\<exists>ps. (roleID, Inr ps) \<in> set (repoQueries m))) \<and>
     (\<forall>roleID ps. (roleID, Inr ps) \<in> set (repoQueries m) \<longrightarrow>
        rolePermissionsCache m roleID = Some (permissionMap ps Map.empty))"

text \<open>
  The cache agrees with a store when every entry is what that store holds for the role.
  \<open>sameStore\<close> turns a list of requests into calls that all see the same store.
\<close>

definition cacheAgrees :: "PermissionRepository \<Rightarrow> memory \<Rightarrow> bool" where
  "cacheAgrees repo m \<longleftrightarrow>
     (\<forall>roleID rolePerms. rolePermissionsCache m roleID = Some rolePerms \<longrightarrow>
        (\<exists>ps. repo roleID = Inr ps \<and> rolePerms = permissionMap ps Map.empty))"

definition sameStore :: "PermissionRepository \<Rightarrow> (int \<times> string) list \<Rightarrow> (PermissionRepository \<times> int \<times> string) list" where
  "sameStore repo reqs = map (\<lambda>(roleID, permission). (repo, roleID, permission)) reqs"

text \<open>
  A Go \<^verbatim>\<open>int\<close> has 64 bits. The members of the two tokens that \<^verbatim>\<open>GenerateAuthTokens\<close>
  signs, given the expiry and the issue time in seconds. The expiry that a token string
  carries: the number of its last \<^verbatim>\<open>exp\<close> member.
\<close>

definition isInt64 :: "int \<Rightarrow> bool" where
  "isInt64 n \<longleftrightarrow> - 9223372036854775808 \<le> n \<and> n \<le> 9223372036854775807"

definition accessMembers :: "Account \<Rightarrow> int \<Rightarrow> int \<Rightarrow> (string \<times> json) list" where
  "accessMembers account exp iat =
     [(''account_id'', JNumber (ID account)), (''username'', JString (coerceUTF8 (Username account))),
      (''role_id'', JNumber (RoleID account)), (''iss'', JString ''fastener-api''),
      (''sub'', JString (itoa (ID account))), (''exp'', JNumber exp), (''iat'', JNumber iat)]"

definition refreshMembers :: "Account \<Rightarrow> int \<Rightarrow> int \<Rightarrow> (string \<times> json) list" where
  "refreshMembers account exp iat =
     [(''account_id'', JNumber (ID account)), (''iss'', JString ''fastener-api''),
      (''sub'', JString (itoa (ID account))), (''exp'', JNumber exp), (''iat'', JNumber iat)]"

fun tokenExpiresAt :: "tokenString \<Rightarrow> int option" where
  "tokenExpiresAt (Malformed s) = None"
| "tokenExpiresAt (Compact method members sig) =
     (case map_of (rev members) ''exp'' of Some (JNumber t) \<Rightarrow> Some t | _ \<Rightarrow> None)"

subsection \<open>Example data\<close>

text \<open>
  Concrete collaborators and inputs at which the theorems below are instantiated: a store
  that is down, a store in which no role has a permission, a store in which role 2 has
  two permissions and every other role none, claims of a given role, two accounts, two sets of clock readings (the second with a
  second boundary between the first two readings), a stand-in for bcrypt that compares
  a password with a marked copy of itself, a database with the account alice and the
  roles 1 and 2, and a validator that accepts every request.
\<close>

definition storeDown :: PermissionRepository where
  "storeDown roleID = Inl (Plain ''connection refused'')"

definition revokedStore :: PermissionRepository where
  "revokedStore roleID = Inr []"

definition financeStore :: PermissionRepository where
  "financeStore roleID =
     (if roleID = 2 then
        Inr [\<lparr>perm_ID = 10, perm_Name = ''company:read'', perm_Description = []\<rparr>,
             \<lparr>perm_ID = 11, perm_Name = ''customer:read'', perm_Description = []\<rparr>]
      else Inr [])"

definition claimsOfRole :: "int \<Rightarrow> AccessClaims" where
  "claimsOfRole roleID =
     emptyAccessClaims\<lparr>access_AccountID := 7, access_Username := ''alice'', access_RoleID := roleID\<rparr>"

definition alice :: Account where
  "alice = \<lparr>ID = 7, Username = ''alice'', Password = ''$2a$10$secret123'', RoleID = 2,
            RoleName = ''finance''\<rparr>"

definition bob :: Account where
  "bob = \<lparr>ID = 9, Username = ''bob'', Password = [], RoleID = 2, RoleName = ''finance''\<rparr>"

definition steadyClock :: "int \<times> int \<times> int \<times> int" where
  "steadyClock = (1700000000000000100, 1700000000000000200, 1700000000000000300, 1700000000000000400)"

definition tickingClock :: "int \<times> int \<times> int \<times> int" where
  "tickingClock = (1700000000999999999, 1700000001000000000, 1700000001000000001, 1700000001000000002)"

definition exampleBcrypt :: bcrypt where
  "exampleBcrypt =
     \<lparr>GenerateFromPassword = (\<lambda>password. Inr (''$2a$10$'' @ password)),
      CompareHashAndPassword = (\<lambda>hash password.
        if hash = ''$2a$10$'' @ password then None
        else Some (Plain ''crypto/bcrypt: hashedPassword is not the hash of the given password''))\<rparr>"

definition exampleAccounts :: AccountRepository where
  "exampleAccounts =
     \<lparr>FindByUsername = (\<lambda>username. if username = ''alice'' then Inr (Some alice) else Inr None),
      FindByID = (\<lambda>id. if id = 7 then Inr (Some (alice\<lparr>Password := []\<rparr>)) else Inr None),
      Create = (\<lambda>account. Inr 8)\<rparr>"

definition exampleRoles :: RoleRepository where
  "exampleRoles =
     \<lparr>role_FindByID = (\<lambda>id. if id = 1 then Inr (Some \<lparr>role_ID = 1, role_Name = ''admin''\<rparr>)
                           else if id = 2 then Inr (Some \<lparr>role_ID = 2, role_Name = ''finance''\<rparr>)
                           else Inr None)\<rparr>"

definition exampleService :: authServiceImpl where
  "exampleService =
     \<lparr>accountRepo = exampleAccounts, roleRepo = exampleRoles, jwtSecret = ''s3cret'',
      jwtAccessExpires = 1, jwtRefreshExpires = 720\<rparr>"


section \<open>The permission cache\<close>

text \<open>The three ways a call of \<^verbatim>\<open>HasPermission\<close> can go.\<close>

lemma permissionMap_apply:
  "permissionMap ps pm s = (if s \<in> perm_Name ` set ps then Some True else pm s)"
  by (induction ps arbitrary: pm) auto

lemma dom_permissionMap:
  "dom (permissionMap ps Map.empty) = perm_Name ` set ps"
  by (auto simp: permissionMap_apply dom_def)

lemma HasPermission_hit:
  "rolePermissionsCache m roleID = Some rolePerms \<Longrightarrow>
   HasPermission repo roleID permission m = ((rolePerms permission \<noteq> None, None), m)"
  by (simp add: HasPermission_def)

lemma HasPermission_miss_error:
  "rolePermissionsCache m roleID = None \<Longrightarrow> repo roleID = Inl e \<Longrightarrow>
   HasPermission repo roleID permission m =
     ((False, Some (Custom ErrInternalServer)),
      SetDetails ErrInternalServer ''Failed to retrieve permissions''
        (m\<lparr>repoQueries := repoQueries m @ [(roleID, Inl e)]\<rparr>))"
  by (simp add: HasPermission_def loadPermissionsForRole_def Let_def)

lemma HasPermission_miss_loaded:
  "rolePermissionsCache m roleID = None \<Longrightarrow> repo roleID = Inr ps \<Longrightarrow>
   HasPermission repo roleID permission m =
     ((permission \<in> perm_Name ` set ps, None),
      m\<lparr>repoQueries := repoQueries m @ [(roleID, Inr ps)],
        rolePermissionsCache := (rolePermissionsCache m)(roleID \<mapsto> permissionMap ps Map.empty)\<rparr>)"
  by (auto simp: HasPermission_def loadPermissionsForRole_def Let_def permissionMap_apply)

lemma cacheInvariant_step:
  assumes "cacheInvariant m"
  shows "cacheInvariant (snd (HasPermission repo roleID permission m))"
proof (cases "rolePermissionsCache m roleID")
  case (Some rp)
  then show ?thesis using assms by (simp add: HasPermission_hit)
next
  case None
  with assms have fresh: "\<And>ps. (roleID, Inr ps) \<notin> set (repoQueries m)"
    unfolding cacheInvariant_def by blast
  show ?thesis
  proof (cases "repo roleID")
    case (Inl e)
    then show ?thesis using assms None
      by (simp add: HasPermission_miss_error cacheInvariant_def SetDetails_def)
  next
    case (Inr ps)
    then show ?thesis using assms None fresh
      by (auto simp: HasPermission_miss_loaded cacheInvariant_def)
  qed
qed

lemma cache_kept_step:
  "rolePermissionsCache m r = Some rp \<Longrightarrow>
   rolePermissionsCache (snd (HasPermission repo roleID permission m)) r = Some rp"
  by (cases "rolePermissionsCache m roleID"; cases "repo roleID")
     (auto simp: HasPermission_hit HasPermission_miss_error HasPermission_miss_loaded SetDetails_def)

lemma cache_kept_calls:
  "rolePermissionsCache m r = Some rp \<Longrightarrow> rolePermissionsCache (calls cs m) r = Some rp"
proof (induction cs arbitrary: m)
  case Nil
  then show ?case by simp
next
  case (Cons c cs)
  obtain repo roleID permission where c: "c = (repo, roleID, permission)"
    by (cases c) auto
  from Cons.prems have "rolePermissionsCache (snd (HasPermission repo roleID permission m)) r = Some rp"
    by (rule cache_kept_step)
  then show ?case using c by (simp add: Cons.IH)
qed

lemma cacheAgrees_step:
  "cacheAgrees repo m \<Longrightarrow> cacheAgrees repo (snd (HasPermission repo roleID permission m))"
  by (cases "rolePermissionsCache m roleID"; cases "repo roleID")
     (auto simp: cacheAgrees_def HasPermission_hit HasPermission_miss_error HasPermission_miss_loaded
        SetDetails_def)

lemma cacheAgrees_calls:
  "cacheAgrees repo m \<Longrightarrow> cacheAgrees repo (calls (sameStore repo reqs) m)"
proof (induction reqs arbitrary: m)
  case Nil
  then show ?case by (simp add: sameStore_def)
next
  case (Cons q reqs)
  obtain roleID permission where q: "q = (roleID, permission)"
    by (cases q) auto
  have "cacheAgrees repo (snd (HasPermission repo roleID permission m))"
    using Cons.prems by (rule cacheAgrees_step)
  from Cons.IH [OF this] show ?case using q by (simp add: sameStore_def)
qed

lemma cacheAgrees_empty:
  "rolePermissionsCache m = Map.empty \<Longrightarrow> cacheAgrees repo m"
  by (simp add: cacheAgrees_def)

text \<open>
  Claim C6, without its last clause as it stands. In a memory that satisfies the cache
  invariant, a call of \<^verbatim>\<open>HasPermission\<close> leaves a memory that satisfies it: an entry
  exists exactly for the roles with an earlier successful store query and its keys are
  that query's permission names. A failed store query gives the internal error and the
  cache is as before. Every entry that was there is there afterwards, unchanged. A call
  reaches the store at most once. Of two consecutive calls for the same role the second
  does not reach the store when the first returned no error, so that both together reach
  it at most once; the claim's "at most once" for every two consecutive calls does not
  hold after a failed query, which caches nothing.
\<close>

theorem HasPermission_cache_invariant:
  assumes "cacheInvariant m"
  shows "cacheInvariant (snd (HasPermission repo roleID permission m)) \<and>
         (\<forall>r rp. rolePermissionsCache (snd (HasPermission repo roleID permission m)) r = Some rp \<longrightarrow>
            (\<exists>ps. (r, Inr ps) \<in> set (repoQueries (snd (HasPermission repo roleID permission m))) \<and>
                  dom rp = perm_Name ` set ps)) \<and>
         (\<forall>e. rolePermissionsCache m roleID = None \<and> repo roleID = Inl e \<longrightarrow>
            fst (HasPermission repo roleID permission m) = (False, Some (Custom ErrInternalServer)) \<and>
            rolePermissionsCache (snd (HasPermission repo roleID permission m)) = rolePermissionsCache m) \<and>
         (\<forall>r rp. rolePermissionsCache m r = Some rp \<longrightarrow>
            rolePermissionsCache (snd (HasPermission repo roleID permission m)) r = Some rp) \<and>
         length (repoQueries (snd (HasPermission repo roleID permission m))) \<le> length (repoQueries m) + 1 \<and>
         (snd (fst (HasPermission repo roleID permission m)) = None \<longrightarrow>
            (\<forall>repo' permission'.
               repoQueries (snd (HasPermission repo' roleID permission'
                                  (snd (HasPermission repo roleID permission m))))
                 = repoQueries (snd (HasPermission repo roleID permission m))) \<and>
            (\<forall>repo' permission'.
               length (repoQueries (snd (HasPermission repo' roleID permission'
                                  (snd (HasPermission repo roleID permission m)))))
                 \<le> length (repoQueries m) + 1))"
proof -
  let ?m' = "snd (HasPermission repo roleID permission m)"
  have inv: "cacheInvariant ?m'"
    using assms by (rule cacheInvariant_step)
  have sets: "\<forall>r rp. rolePermissionsCache ?m' r = Some rp \<longrightarrow>
            (\<exists>ps. (r, Inr ps) \<in> set (repoQueries ?m') \<and> dom rp = perm_Name ` set ps)"
  proof (intro allI impI)
    fix r rp
    assume c: "rolePermissionsCache ?m' r = Some rp"
    with inv obtain ps where ps: "(r, Inr ps) \<in> set (repoQueries ?m')"
      unfolding cacheInvariant_def by (metis option.distinct(1))
    with inv c have "rp = permissionMap ps Map.empty"
      unfolding cacheInvariant_def by (metis option.inject)
    with ps show "\<exists>ps. (r, Inr ps) \<in> set (repoQueries ?m') \<and> dom rp = perm_Name ` set ps"
      by (auto simp: dom_permissionMap)
  qed
  have failed: "\<forall>e. rolePermissionsCache m roleID = None \<and> repo roleID = Inl e \<longrightarrow>
            fst (HasPermission repo roleID permission m) = (False, Some (Custom ErrInternalServer)) \<and>
            rolePermissionsCache ?m' = rolePermissionsCache m"
    by (simp add: HasPermission_miss_error SetDetails_def)
  have kept: "\<forall>r rp. rolePermissionsCache m r = Some rp \<longrightarrow> rolePermissionsCache ?m' r = Some rp"
    by (simp add: cache_kept_step)
  have once: "length (repoQueries ?m') \<le> length (repoQueries m) + 1"
    by (cases "rolePermissionsCache m roleID"; cases "repo roleID")
       (simp_all add: HasPermission_hit HasPermission_miss_error HasPermission_miss_loaded SetDetails_def)
  have cached: "rolePermissionsCache ?m' roleID \<noteq> None" if "snd (fst (HasPermission repo roleID permission m)) = None"
    using that
    by (cases "rolePermissionsCache m roleID"; cases "repo roleID")
       (simp_all add: HasPermission_hit HasPermission_miss_error HasPermission_miss_loaded)
  have second: "repoQueries (snd (HasPermission repo' roleID permission' ?m')) = repoQueries ?m'"
    if "snd (fst (HasPermission repo roleID permission m)) = None" for repo' permission'
    using cached [OF that] by (auto simp: HasPermission_hit)
  show ?thesis
    using inv sets failed kept once second by simp
qed

text \<open>
  The fresh memory satisfies the invariant; the theorem at a store that answers and at a
  store that is down.
\<close>

theorem HasPermission_cache_invariant_witness:
  "cacheInvariant NewPermissionService \<and>
   cacheInvariant (snd (HasPermission financeStore 2 ''company:read'' NewPermissionService)) \<and>
   length (repoQueries (snd (HasPermission financeStore 2 ''customer:read''
             (snd (HasPermission financeStore 2 ''company:read'' NewPermissionService))))) \<le> 1 \<and>
   fst (HasPermission storeDown 2 ''company:read'' NewPermissionService)
     = (False, Some (Custom ErrInternalServer)) \<and>
   rolePermissionsCache (snd (HasPermission storeDown 2 ''company:read'' NewPermissionService))
     = rolePermissionsCache NewPermissionService \<and>
   rolePermissionsCache
       (snd (HasPermission storeDown 3 ''company:read''
              (snd (HasPermission financeStore 2 ''company:read'' NewPermissionService)))) 2
     = rolePermissionsCache (snd (HasPermission financeStore 2 ''company:read'' NewPermissionService)) 2 \<and>
   dom (the (rolePermissionsCache (snd (HasPermission financeStore 2 ''company:read'' NewPermissionService)) 2))
     = {''company:read'', ''customer:read''}"
proof -
  have h: "cacheInvariant NewPermissionService"
    by (simp add: cacheInvariant_def NewPermissionService_def)
  have fresh: "rolePermissionsCache NewPermissionService 2 = None"
    by (simp add: NewPermissionService_def)
  have rows: "financeStore 2 =
      Inr [\<lparr>perm_ID = 10, perm_Name = ''company:read'', perm_Description = []\<rparr>,
           \<lparr>perm_ID = 11, perm_Name = ''customer:read'', perm_Description = []\<rparr>]"
    by (simp add: financeStore_def)
  have down: "storeDown 2 = Inl (Plain ''connection refused'')"
    by (simp add: storeDown_def)
  have ok: "snd (fst (HasPermission financeStore 2 ''company:read'' NewPermissionService)) = None"
    by (simp add: HasPermission_miss_loaded fresh rows)
  have cached: "rolePermissionsCache (snd (HasPermission financeStore 2 ''company:read'' NewPermissionService)) 2
      = Some (permissionMap [\<lparr>perm_ID = 10, perm_Name = ''company:read'', perm_Description = []\<rparr>,
           \<lparr>perm_ID = 11, perm_Name = ''customer:read'', perm_Description = []\<rparr>] Map.empty)"
    by (simp add: HasPermission_miss_loaded fresh rows)
  note first = HasPermission_cache_invariant [OF h, of financeStore 2 "''company:read''"]
  from first have h1: "cacheInvariant (snd (HasPermission financeStore 2 ''company:read'' NewPermissionService))"
    by blast
  note failed = HasPermission_cache_invariant [OF h, of storeDown 2 "''company:read''"]
  note later = HasPermission_cache_invariant [OF h1, of storeDown 3 "''company:read''"]
  have two: "length (repoQueries (snd (HasPermission financeStore 2 ''customer:read''
             (snd (HasPermission financeStore 2 ''company:read'' NewPermissionService))))) \<le> 1"
    using first ok by (simp add: NewPermissionService_def)
  have err: "fst (HasPermission storeDown 2 ''company:read'' NewPermissionService)
       = (False, Some (Custom ErrInternalServer)) \<and>
     rolePermissionsCache (snd (HasPermission storeDown 2 ''company:read'' NewPermissionService))
       = rolePermissionsCache NewPermissionService"
    using failed fresh down by blast
  have kept: "rolePermissionsCache
       (snd (HasPermission storeDown 3 ''company:read''
              (snd (HasPermission financeStore 2 ''company:read'' NewPermissionService)))) 2
     = rolePermissionsCache (snd (HasPermission financeStore 2 ''company:read'' NewPermissionService)) 2"
    using later cached by simp
  have names: "dom (the (rolePermissionsCache
        (snd (HasPermission financeStore 2 ''company:read'' NewPermissionService)) 2))
     = {''company:read'', ''customer:read''}"
    by (auto simp: cached dom_permissionMap)
  show ?thesis
    using h h1 two err kept names by blast
qed

text \<open>
  Claim C6 as stated fails at a store that is down: two consecutive calls for role 2 reach
  the store twice.
\<close>

theorem HasPermission_failed_query_repeated:
  "\<not> length (repoQueries (calls [(storeDown, 2, ''company:read''), (storeDown, 2, ''company:read'')]
                         NewPermissionService)) \<le> 1"
  by (simp add: HasPermission_def loadPermissionsForRole_def NewPermissionService_def storeDown_def
      SetDetails_def Let_def)

text \<open>
  Claim C10. When the cache has no entry for a role and the store answers with no row,
  \<^verbatim>\<open>HasPermission\<close> returns false and no error and stores the empty map for the role;
  from then on, after any further calls, a call for that role with any permission string
  and any store returns false and no error and leaves the memory as it is, the history of
  store queries included.
\<close>

theorem HasPermission_empty_role:
  assumes "rolePermissionsCache m roleID = None" and "repo roleID = Inr []"
  shows "fst (HasPermission repo roleID permission m) = (False, None) \<and>
         rolePermissionsCache (snd (HasPermission repo roleID permission m)) roleID = Some Map.empty \<and>
         (\<forall>cs repo' permission'.
            HasPermission repo' roleID permission' (calls cs (snd (HasPermission repo roleID permission m)))
              = ((False, None), calls cs (snd (HasPermission repo roleID permission m))))"
proof -
  let ?m' = "snd (HasPermission repo roleID permission m)"
  have first: "fst (HasPermission repo roleID permission m) = (False, None)"
    using assms by (simp add: HasPermission_miss_loaded)
  have entry: "rolePermissionsCache ?m' roleID = Some Map.empty"
    using assms by (simp add: HasPermission_miss_loaded)
  have later: "HasPermission repo' roleID permission' (calls cs ?m') = ((False, None), calls cs ?m')"
    for cs repo' permission'
    using cache_kept_calls [OF entry, of cs] by (simp add: HasPermission_hit)
  show ?thesis
    using first entry later by simp
qed

theorem HasPermission_empty_role_witness:
  "rolePermissionsCache NewPermissionService 3 = None \<and> financeStore 3 = Inr [] \<and>
   fst (HasPermission financeStore 3 ''company:read'' NewPermissionService) = (False, None) \<and>
   HasPermission storeDown 3 ''customer:read''
       (calls [(financeStore, 2, ''company:read'')]
          (snd (HasPermission financeStore 3 ''company:read'' NewPermissionService)))
     = ((False, None),
        calls [(financeStore, 2, ''company:read'')]
          (snd (HasPermission financeStore 3 ''company:read'' NewPermissionService)))"
proof -
  have h1: "rolePermissionsCache NewPermissionService 3 = None"
    by (simp add: NewPermissionService_def)
  have h2: "financeStore 3 = Inr []"
    by (simp add: financeStore_def)
  show ?thesis
    using h1 h2
      HasPermission_empty_role [of NewPermissionService 3 financeStore "''company:read''", OF h1 h2]
    by blast
qed

section \<open>Authorization\<close>

text \<open>
  Claim C3. For claims whose role ID is 1, \<^verbatim>\<open>Authorize\<close> hands the request on, whatever
  the required permission, the cache and the store are; the memory, and with it the
  history of store queries, is unchanged.
\<close>

theorem Authorize_admin_bypass:
  "access_RoleID claims = 1 \<Longrightarrow> Authorize permission repo (Some claims) m = (Next, m)"
  by (simp add: Authorize_def)

theorem Authorize_admin_bypass_witness:
  "access_RoleID (claimsOfRole 1) = 1 \<and>
   Authorize ''launch:missiles'' storeDown (Some (claimsOfRole 1)) NewPermissionService
     = (Next, NewPermissionService)"
proof -
  have h: "access_RoleID (claimsOfRole 1) = 1"
    by (simp add: claimsOfRole_def)
  from Authorize_admin_bypass [OF h] show ?thesis using h by simp
qed

text \<open>
  The decision for another role, in any memory whose cache agrees with the store.
\<close>

lemma Authorize_allowed_iff:
  assumes "access_RoleID claims \<noteq> 1" and "cacheAgrees repo m" and "repo (access_RoleID claims) = Inr ps"
  shows "fst (Authorize permission repo (Some claims) m) =
           (if permission \<in> perm_Name ` set ps then Next
            else JSON 403 (ErrorBody \<lparr>Code = 403, Message = ''Forbidden'',
                   Details = Some ''Insufficient permissions to perform this action''\<rparr>))"
proof (cases "rolePermissionsCache m (access_RoleID claims)")
  case None
  then show ?thesis using assms
    by (simp add: Authorize_def HasPermission_miss_loaded SetDetails_def deref_def)
next
  case (Some rp)
  with assms have "rp = permissionMap ps Map.empty"
    unfolding cacheAgrees_def by (metis sum.inject(2))
  then show ?thesis using assms Some
    by (simp add: Authorize_def HasPermission_hit SetDetails_def deref_def permissionMap_apply)
qed

lemma Authorize_store_error:
  assumes "access_RoleID claims \<noteq> 1" and "cacheAgrees repo m" and "repo (access_RoleID claims) = Inl e"
  shows "fst (Authorize permission repo (Some claims) m) =
           JSON 500 (ErrorBody \<lparr>Code = 500, Message = ''Internal server error'',
                   Details = Some ''Failed to retrieve permissions''\<rparr>)"
proof -
  from assms have "rolePermissionsCache m (access_RoleID claims) = None"
    unfolding cacheAgrees_def by (metis not_Some_eq sum.distinct(1))
  then show ?thesis using assms
    by (simp add: Authorize_def HasPermission_miss_error SetDetails_def deref_def)
qed

text \<open>
  Claim C4, as the code has it. For claims whose role ID is not 1 and any required
  string: when the role has no cache entry, \<^verbatim>\<open>Authorize\<close> asks the store; with the rows
  \<open>ps\<close> there it hands the request on if the string is the name of one of the rows,
  compared as strings, and answers 403 Forbidden otherwise, and when the store fails it
  answers 500 with the internal error. When the role has a cache entry, it decides in the
  same way from the keys of the entry and does not ask the store. Hence, in a service
  that started with an empty cache and has answered every request since from one and
  the same store, it decides by the rows of that store.
\<close>

theorem Authorize_membership:
  assumes "access_RoleID claims \<noteq> 1"
  shows "(\<forall>ps. rolePermissionsCache m (access_RoleID claims) = None \<and> repo (access_RoleID claims) = Inr ps \<longrightarrow>
            fst (Authorize permission repo (Some claims) m) =
              (if permission \<in> perm_Name ` set ps then Next
               else JSON 403 (ErrorBody \<lparr>Code = 403, Message = ''Forbidden'',
                      Details = Some ''Insufficient permissions to perform this action''\<rparr>))) \<and>
         (\<forall>e. rolePermissionsCache m (access_RoleID claims) = None \<and> repo (access_RoleID claims) = Inl e \<longrightarrow>
            fst (Authorize permission repo (Some claims) m) =
              JSON 500 (ErrorBody \<lparr>Code = 500, Message = ''Internal server error'',
                      Details = Some ''Failed to retrieve permissions''\<rparr>)) \<and>
         (\<forall>rolePerms. rolePermissionsCache m (access_RoleID claims) = Some rolePerms \<longrightarrow>
            fst (Authorize permission repo (Some claims) m) =
              (if permission \<in> dom rolePerms then Next
               else JSON 403 (ErrorBody \<lparr>Code = 403, Message = ''Forbidden'',
                      Details = Some ''Insufficient permissions to perform this action''\<rparr>)) \<and>
            repoQueries (snd (Authorize permission repo (Some claims) m)) = repoQueries m) \<and>
         (\<forall>m0 reqs ps. rolePermissionsCache m0 = Map.empty \<and> repo (access_RoleID claims) = Inr ps \<longrightarrow>
            fst (Authorize permission repo (Some claims) (calls (sameStore repo reqs) m0)) =
              (if permission \<in> perm_Name ` set ps then Next
               else JSON 403 (ErrorBody \<lparr>Code = 403, Message = ''Forbidden'',
                      Details = Some ''Insufficient permissions to perform this action''\<rparr>))) \<and>
         (\<forall>m0 reqs e. rolePermissionsCache m0 = Map.empty \<and> repo (access_RoleID claims) = Inl e \<longrightarrow>
            fst (Authorize permission repo (Some claims) (calls (sameStore repo reqs) m0)) =
              JSON 500 (ErrorBody \<lparr>Code = 500, Message = ''Internal server error'',
                      Details = Some ''Failed to retrieve permissions''\<rparr>))"
proof -
  have miss_ok: "fst (Authorize permission repo (Some claims) m) =
              (if permission \<in> perm_Name ` set ps then Next
               else JSON 403 (ErrorBody \<lparr>Code = 403, Message = ''Forbidden'',
                      Details = Some ''Insufficient permissions to perform this action''\<rparr>))"
    if "rolePermissionsCache m (access_RoleID claims) = None" and "repo (access_RoleID claims) = Inr ps" for ps
    using that assms by (simp add: Authorize_def HasPermission_miss_loaded SetDetails_def deref_def)
  have miss_err: "fst (Authorize permission repo (Some claims) m) =
              JSON 500 (ErrorBody \<lparr>Code = 500, Message = ''Internal server error'',
                      Details = Some ''Failed to retrieve permissions''\<rparr>)"
    if "rolePermissionsCache m (access_RoleID claims) = None" and "repo (access_RoleID claims) = Inl e" for e
    using that assms by (simp add: Authorize_def HasPermission_miss_error SetDetails_def deref_def)
  have hit: "fst (Authorize permission repo (Some claims) m) =
              (if permission \<in> dom rolePerms then Next
               else JSON 403 (ErrorBody \<lparr>Code = 403, Message = ''Forbidden'',
                      Details = Some ''Insufficient permissions to perform this action''\<rparr>)) \<and>
            repoQueries (snd (Authorize permission repo (Some claims) m)) = repoQueries m"
    if "rolePermissionsCache m (access_RoleID claims) = Some rolePerms" for rolePerms
    using that assms by (auto simp: Authorize_def HasPermission_hit SetDetails_def deref_def dom_def)
  have same_ok: "fst (Authorize permission repo (Some claims) (calls (sameStore repo reqs) m0)) =
              (if permission \<in> perm_Name ` set ps then Next
               else JSON 403 (ErrorBody \<lparr>Code = 403, Message = ''Forbidden'',
                      Details = Some ''Insufficient permissions to perform this action''\<rparr>))"
    if "rolePermissionsCache m0 = Map.empty" and "repo (access_RoleID claims) = Inr ps" for m0 reqs ps
  proof -
    have "cacheAgrees repo (calls (sameStore repo reqs) m0)"
      using that(1) by (intro cacheAgrees_calls cacheAgrees_empty)
    with assms show ?thesis
      using that(2) by (simp add: Authorize_allowed_iff)
  qed
  have same_err: "fst (Authorize permission repo (Some claims) (calls (sameStore repo reqs) m0)) =
              JSON 500 (ErrorBody \<lparr>Code = 500, Message = ''Internal server error'',
                      Details = Some ''Failed to retrieve permissions''\<rparr>)"
    if "rolePermissionsCache m0 = Map.empty" and "repo (access_RoleID claims) = Inl e" for m0 reqs e
  proof -
    have "cacheAgrees repo (calls (sameStore repo reqs) m0)"
      using that(1) by (intro cacheAgrees_calls cacheAgrees_empty)
    with assms show ?thesis
      using that(2) by (simp add: Authorize_store_error)
  qed
  show ?thesis
    using miss_ok miss_err hit same_ok same_err by blast
qed

text \<open>
  Role 2 holds \<^verbatim>\<open>company:read\<close>: that string is let through, the same string with a
  capital letter and a pattern with a star are not, and a store that is down gives the
  internal error unless the role is cached.
\<close>

theorem Authorize_membership_witness:
  "access_RoleID (claimsOfRole 2) \<noteq> 1 \<and>
   fst (Authorize ''company:read'' financeStore (Some (claimsOfRole 2)) NewPermissionService) = Next \<and>
   fst (Authorize ''Company:read'' financeStore (Some (claimsOfRole 2)) NewPermissionService)
     = JSON 403 (ErrorBody \<lparr>Code = 403, Message = ''Forbidden'',
                      Details = Some ''Insufficient permissions to perform this action''\<rparr>) \<and>
   fst (Authorize ''company:read'' storeDown (Some (claimsOfRole 2)) NewPermissionService)
     = JSON 500 (ErrorBody \<lparr>Code = 500, Message = ''Internal server error'',
                      Details = Some ''Failed to retrieve permissions''\<rparr>) \<and>
   fst (Authorize ''company:*'' storeDown (Some (claimsOfRole 2))
         (snd (HasPermission financeStore 2 ''company:read'' NewPermissionService)))
     = JSON 403 (ErrorBody \<lparr>Code = 403, Message = ''Forbidden'',
                      Details = Some ''Insufficient permissions to perform this action''\<rparr>) \<and>
   fst (Authorize ''customer:read'' financeStore (Some (claimsOfRole 2))
         (calls (sameStore financeStore [(2, ''company:read''), (3, ''company:read'')]) NewPermissionService))
     = Next \<and>
   fst (Authorize ''company:read'' storeDown (Some (claimsOfRole 2))
         (calls (sameStore storeDown [(2, ''customer:read'')]) NewPermissionService))
     = JSON 500 (ErrorBody \<lparr>Code = 500, Message = ''Internal server error'',
                      Details = Some ''Failed to retrieve permissions''\<rparr>)"
proof -
  have h: "access_RoleID (claimsOfRole 2) \<noteq> 1"
    by (simp add: claimsOfRole_def)
  have r: "access_RoleID (claimsOfRole 2) = 2"
    by (simp add: claimsOfRole_def)
  have fresh: "rolePermissionsCache NewPermissionService = Map.empty"
    by (simp add: NewPermissionService_def)
  have rows: "financeStore 2 =
      Inr [\<lparr>perm_ID = 10, perm_Name = ''company:read'', perm_Description = []\<rparr>,
           \<lparr>perm_ID = 11, perm_Name = ''customer:read'', perm_Description = []\<rparr>]"
    by (simp add: financeStore_def)
  have down: "storeDown 2 = Inl (Plain ''connection refused'')"
    by (simp add: storeDown_def)
  have cached: "rolePermissionsCache (snd (HasPermission financeStore 2 ''company:read'' NewPermissionService)) 2
      = Some (permissionMap [\<lparr>perm_ID = 10, perm_Name = ''company:read'', perm_Description = []\<rparr>,
           \<lparr>perm_ID = 11, perm_Name = ''customer:read'', perm_Description = []\<rparr>] Map.empty)"
    by (simp add: HasPermission_miss_loaded fresh rows)
  note t = Authorize_membership [OF h]
  show ?thesis
    using h
      t [of NewPermissionService financeStore "''company:read''"]
      t [of NewPermissionService financeStore "''Company:read''"]
      t [of NewPermissionService storeDown "''company:read''"]
      t [of "snd (HasPermission financeStore 2 ''company:read'' NewPermissionService)" storeDown "''company:*''"]
      t [of _ financeStore "''customer:read''"]
      t [of _ storeDown "''company:read''"]
    by (simp add: r fresh rows down cached dom_permissionMap)
qed

text \<open>
  Claim C4 as stated fails when the store has changed since the role was cached: role 2
  was cached with \<^verbatim>\<open>company:read\<close>, the store now holds no permission for it, and the
  request is still handed on.
\<close>

theorem Authorize_answers_from_cache:
  "revokedStore 2 = Inr [] \<and>
   fst (Authorize ''company:read'' revokedStore (Some (claimsOfRole 2))
         (snd (HasPermission financeStore 2 ''company:read'' NewPermissionService))) = Next"
  by (simp add: revokedStore_def Authorize_def HasPermission_def loadPermissionsForRole_def
      NewPermissionService_def financeStore_def claimsOfRole_def emptyAccessClaims_def Let_def)

section \<open>Tokens\<close>

text \<open>What \<^verbatim>\<open>GenerateAuthTokens\<close> returns, and how the issued members decode and parse.\<close>

lemma digits_nonempty: "digits n \<noteq> []"
  by (subst digits.simps) simp

lemma itoa_nonempty: "itoa i \<noteq> []"
  by (simp add: itoa_def digits_nonempty)

lemma itoa_7: "itoa 7 = ''7''"
  by (simp add: itoa_def digits.simps)

text \<open>
  Strings as JSON carries them: a valid string is left as it is and an invalid one gets
  longer, so a string comes back as it was exactly when it is valid UTF-8. A coerced
  string is valid, so reading what was written changes nothing more. Strings of 7-bit
  characters are valid, among them the decimal numerals.
\<close>

lemma coerceUTF8_valid: "validUTF8 s \<Longrightarrow> coerceUTF8 s = s"
proof (induction s rule: coerceUTF8.induct)
  case 1
  then show ?case by simp
next
  case (2 c cs)
  from "2.prems" have w: "runeWidth (c # cs) \<noteq> 0" and rest: "validUTF8 (drop (runeWidth (c # cs)) (c # cs))"
    by (simp_all add: validUTF8.simps(2) split: if_splits)
  from "2.IH"(2) [OF w rest] w show ?case
    by (simp add: coerceUTF8.simps(2))
qed

lemma coerceUTF8_length: "length s \<le> length (coerceUTF8 s)"
proof (induction s rule: coerceUTF8.induct)
  case 1
  then show ?case by simp
next
  case (2 c cs)
  show ?case
  proof (cases "runeWidth (c # cs) = 0")
    case True
    with "2.IH"(1) show ?thesis by (simp add: coerceUTF8.simps(2))
  next
    case False
    with "2.IH"(2) show ?thesis by (simp add: coerceUTF8.simps(2))
  qed
qed

lemma coerceUTF8_longer: "\<not> validUTF8 s \<Longrightarrow> length s < length (coerceUTF8 s)"
proof (induction s rule: coerceUTF8.induct)
  case 1
  then show ?case by simp
next
  case (2 c cs)
  show ?case
  proof (cases "runeWidth (c # cs) = 0")
    case True
    with coerceUTF8_length [of cs] show ?thesis by (simp add: coerceUTF8.simps(2))
  next
    case False
    with "2.prems" have "\<not> validUTF8 (drop (runeWidth (c # cs)) (c # cs))"
      by (simp add: validUTF8.simps(2))
    with "2.IH"(2) False show ?thesis by (simp add: coerceUTF8.simps(2))
  qed
qed

lemma coerceUTF8_fixes_iff: "coerceUTF8 s = s \<longleftrightarrow> validUTF8 s"
proof
  assume "coerceUTF8 s = s"
  then have "\<not> length s < length (coerceUTF8 s)" by simp
  then show "validUTF8 s" using coerceUTF8_longer by blast
next
  assume "validUTF8 s"
  then show "coerceUTF8 s = s" by (rule coerceUTF8_valid)
qed

lemma runeWidth_head:
  "runeWidth (c # cs) \<le> length (c # cs) \<and>
   (runeWidth (c # cs) \<noteq> 0 \<longrightarrow>
      runeWidth (take (runeWidth (c # cs)) (c # cs) @ r) = runeWidth (c # cs))"
proof -
  define lo3 :: nat where "lo3 = (if byte c = 0xE0 then 0xA0 else 0x80)"
  define hi3 :: nat where "hi3 = (if byte c = 0xED then 0x9F else 0xBF)"
  define lo4 :: nat where "lo4 = (if byte c = 0xF0 then 0x90 else 0x80)"
  define hi4 :: nat where "hi4 = (if byte c = 0xF4 then 0x8F else 0xBF)"
  have unf: "runeWidth (c # xs) =
     (if byte c < 0x80 then 1
      else if byteIn 0xC2 0xDF c then
        (case xs of b1 # _ \<Rightarrow> if byteIn 0x80 0xBF b1 then 2 else 0 | _ \<Rightarrow> 0)
      else if byteIn 0xE0 0xEF c then
        (case xs of b1 # b2 # _ \<Rightarrow> if byteIn lo3 hi3 b1 \<and> byteIn 0x80 0xBF b2 then 3 else 0 | _ \<Rightarrow> 0)
      else if byteIn 0xF0 0xF4 c then
        (case xs of b1 # b2 # b3 # _ \<Rightarrow>
           if byteIn lo4 hi4 b1 \<and> byteIn 0x80 0xBF b2 \<and> byteIn 0x80 0xBF b3 then 4 else 0 | _ \<Rightarrow> 0)
      else 0)" for xs
    unfolding lo3_def hi3_def lo4_def hi4_def by (rule runeWidth.simps(2))
  show ?thesis
    by (simp add: unf split: list.splits)
qed

lemma validUTF8_append_rune:
  assumes "runeWidth (c # cs) \<noteq> 0" and "validUTF8 r"
  shows "validUTF8 (take (runeWidth (c # cs)) (c # cs) @ r)"
proof -
  let ?w = "runeWidth (c # cs)"
  from assms(1) obtain n where n: "?w = Suc n"
    by (cases ?w) auto
  have len: "length (take ?w (c # cs)) = ?w"
    using runeWidth_head [of c cs r] by simp
  have hd: "take ?w (c # cs) @ r = c # (take n cs @ r)"
    by (simp add: n)
  have w: "runeWidth (c # (take n cs @ r)) = ?w"
    using runeWidth_head [of c cs r] assms(1) hd by simp
  have "drop ?w (take ?w (c # cs) @ r) = r"
    using len by simp
  then have d: "drop ?w (c # (take n cs @ r)) = r"
    by (simp only: hd)
  show ?thesis
    unfolding hd using assms w d by (simp add: validUTF8.simps(2))
qed

lemma validUTF8_replacement: "validUTF8 r \<Longrightarrow> validUTF8 (CHR 0xEF # CHR 0xBF # CHR 0xBD # r)"
  by (simp add: validUTF8.simps(2) runeWidth.simps(2) byte_def byteIn_def)

lemma validUTF8_coerceUTF8: "validUTF8 (coerceUTF8 s)"
proof (induction s rule: coerceUTF8.induct)
  case 1
  then show ?case by simp
next
  case (2 c cs)
  show ?case
  proof (cases "runeWidth (c # cs) = 0")
    case True
    with "2.IH"(1) show ?thesis by (simp add: coerceUTF8.simps(2) validUTF8_replacement)
  next
    case False
    from validUTF8_append_rune [OF False "2.IH"(2) [OF False]] False show ?thesis
      by (simp only: coerceUTF8.simps(2) if_False)
  qed
qed

lemma coerceUTF8_idem: "coerceUTF8 (coerceUTF8 s) = coerceUTF8 s"
  by (simp add: coerceUTF8_valid validUTF8_coerceUTF8)

lemma validUTF8_ascii: "\<forall>c\<in>set s. byte c < 0x80 \<Longrightarrow> validUTF8 s"
  by (induction s) (simp_all add: validUTF8.simps(2) runeWidth.simps(2))

lemma digit_ascii: "n < 10 \<Longrightarrow> byte (''0123456789'' ! n) < 0x80"
proof -
  assume "n < 10"
  then have "n \<in> {0, 1, 2, 3, 4, 5, 6, 7, 8, 9}" by auto
  then show ?thesis by (auto simp: byte_def)
qed

lemma digits_ascii: "\<forall>c\<in>set (digits n). byte c < 0x80"
proof (induction n rule: digits.induct)
  case (1 n)
  show ?case
  proof (cases "n < 10")
    case True
    then show ?thesis by (subst digits.simps) (simp add: digit_ascii)
  next
    case False
    with 1 show ?thesis by (subst digits.simps) (simp add: digit_ascii)
  qed
qed

lemma coerceUTF8_itoa: "coerceUTF8 (itoa i) = itoa i"
proof -
  have "\<forall>c\<in>set (itoa i). byte c < 0x80"
    using digits_ascii by (simp add: itoa_def byte_def)
  then show ?thesis by (simp add: coerceUTF8_valid validUTF8_ascii)
qed

lemma coerceUTF8_issuer: "coerceUTF8 ''fastener-api'' = ''fastener-api''"
  by (rule coerceUTF8_valid, rule validUTF8_ascii) (simp add: byte_def)

lemma validUTF8_alice: "validUTF8 ''alice''"
  by (rule validUTF8_ascii) (simp add: byte_def)

lemma coerceUTF8_alice: "coerceUTF8 ''alice'' = ''alice''"
  by (simp add: coerceUTF8_valid validUTF8_alice)

lemma coerceUTF8_invalid_byte:
  "coerceUTF8 [CHR ''a'', CHR 0xFF, CHR ''b''] = [CHR ''a'', CHR 0xEF, CHR 0xBF, CHR 0xBD, CHR ''b'']"
  by (simp add: coerceUTF8.simps(2) runeWidth.simps(2) byte_def byteIn_def)

text \<open>Durations and dates, and the two tokens that are issued.\<close>

lemma hours_valid:
  assumes "0 \<le> n" and "n \<le> 2562047"
  shows "hours n = n * 3600000000000"
proof -
  have w: "Hour * (word_of_int n :: 64 word) = word_of_int (3600000000000 * n)"
    by (simp add: Hour_def)
  have lo: "- (2 ^ 63) \<le> 3600000000000 * n" and hi: "3600000000000 * n < 2 ^ 63"
    using assms by simp_all
  have "sint (word_of_int (3600000000000 * n) :: 64 word) = signed_take_bit 63 (3600000000000 * n)"
    by (simp only: sint_sbintrunc') simp
  also have "\<dots> = 3600000000000 * n"
    using lo hi by (rule signed_take_bit_int_eq_self)
  finally show ?thesis
    by (simp only: hours_def w mult.commute)
qed

lemma NewNumericDate_hours:
  assumes "0 \<le> n" and "n \<le> 2562047"
  shows "NewNumericDate (t + hours n) = t div 1000000000 + n * 3600"
proof -
  have "(t + n * 3600000000000) div 1000000000 = t div 1000000000 + n * 3600"
    by (simp add: div_add1_eq)
  then show ?thesis
    using assms by (simp add: NewNumericDate_def hours_valid)
qed

lemma GenerateAuthTokens_eq:
  "GenerateAuthTokens account secret ah rh (now1, now2, now3, now4) m =
     ((Compact HS256 (accessMembers account (NewNumericDate (now1 + hours ah)) (NewNumericDate now2))
         (HMAC HS256 secret (accessMembers account (NewNumericDate (now1 + hours ah)) (NewNumericDate now2))),
       Compact HS256 (refreshMembers account (NewNumericDate (now3 + hours rh)) (NewNumericDate now4))
         (HMAC HS256 secret (refreshMembers account (NewNumericDate (now3 + hours rh)) (NewNumericDate now4))),
       None), m)"
  by (simp add: GenerateAuthTokens_def SignedString_def marshalAccessClaims_def marshalRefreshClaims_def
      marshalRegisteredClaims_def accessMembers_def refreshMembers_def itoa_nonempty
      coerceUTF8_itoa coerceUTF8_issuer)

lemma unmarshalAccess_accessMembers:
  "isInt64 (ID account) \<Longrightarrow> isInt64 (RoleID account) \<Longrightarrow>
   unmarshalAccessClaims (accessMembers account exp iat) =
     Some \<lparr>Issuer = ''fastener-api'', Subject = itoa (ID account), Audience = [], ExpiresAt = Some exp,
           NotBefore = None, IssuedAt = Some iat, JwtID = [], access_AccountID = ID account,
           access_Username = coerceUTF8 (Username account), access_RoleID = RoleID account\<rparr>"
  by (simp add: coerceUTF8_issuer coerceUTF8_itoa coerceUTF8_idem unmarshalAccessClaims_def
      accessMembers_def decodeAccessField_def
      decodeRegisteredField_def emptyAccessClaims_def isInt64_def)



lemma unmarshalRefresh_refreshMembers:
  "isInt64 (ID account) \<Longrightarrow>
   unmarshalRefreshClaims (refreshMembers account exp iat) =
     Some \<lparr>Issuer = ''fastener-api'', Subject = itoa (ID account), Audience = [], ExpiresAt = Some exp,
           NotBefore = None, IssuedAt = Some iat, JwtID = [], refresh_AccountID = ID account\<rparr>"
  by (simp add: coerceUTF8_issuer coerceUTF8_itoa coerceUTF8_idem unmarshalRefreshClaims_def
      refreshMembers_def decodeRefreshField_def
      decodeRegisteredField_def emptyRefreshClaims_def isInt64_def)

lemma ParseWithClaims_signed:
  assumes "unmarshal members = Some claims" and "Validate claims now"
  shows "ParseWithClaims (Compact HS256 members (HMAC HS256 secret members)) unmarshal (keyFunc secret) now
           = Inr (claims, True)"
  using assms by (simp add: ParseWithClaims_def keyFunc_def Verify_def)

lemma Validate_unexpired:
  "ExpiresAt claims = Some exp \<Longrightarrow> NotBefore claims = None \<Longrightarrow>
   Validate claims now \<longleftrightarrow> now < exp * 1000000000"
  by (simp add: Validate_def)

lemma parse_access_of_accessMembers:
  assumes "isInt64 (ID account)" and "isInt64 (RoleID account)" and "now < exp * 1000000000"
  shows "ParseWithClaims
           (Compact HS256 (accessMembers account exp iat) (HMAC HS256 secret (accessMembers account exp iat)))
           unmarshalAccessClaims (keyFunc secret) now
         = Inr (\<lparr>Issuer = ''fastener-api'', Subject = itoa (ID account), Audience = [], ExpiresAt = Some exp,
                 NotBefore = None, IssuedAt = Some iat, JwtID = [], access_AccountID = ID account,
                 access_Username = coerceUTF8 (Username account), access_RoleID = RoleID account\<rparr>, True)"
  using assms
  by (simp add: ParseWithClaims_signed [where unmarshal = unmarshalAccessClaims]
      unmarshalAccess_accessMembers Validate_unexpired)



lemma parse_refresh_of_refreshMembers:
  assumes "isInt64 (ID account)" and "now < exp * 1000000000"
  shows "ParseWithClaims
           (Compact HS256 (refreshMembers account exp iat) (HMAC HS256 secret (refreshMembers account exp iat)))
           unmarshalRefreshClaims (keyFunc secret) now
         = Inr (\<lparr>Issuer = ''fastener-api'', Subject = itoa (ID account), Audience = [], ExpiresAt = Some exp,
                 NotBefore = None, IssuedAt = Some iat, JwtID = [], refresh_AccountID = ID account\<rparr>, True)"
  using assms
  by (simp add: ParseWithClaims_signed [where unmarshal = unmarshalRefreshClaims]
      unmarshalRefresh_refreshMembers Validate_unexpired)




text \<open>The expiry that a struct decodes to is the token's last \<^verbatim>\<open>exp\<close> member.\<close>

lemma decodeMembers_snoc:
  "decodeMembers f (members @ [(k, v)]) c =
     (case decodeMembers f members c of None \<Rightarrow> None | Some c' \<Rightarrow> f k v c')"
  by (induction members arbitrary: c) (auto split: option.splits)

lemma decoded_exp:
  fixes f :: "string \<Rightarrow> json \<Rightarrow> 'a RegisteredClaims_scheme \<Rightarrow> 'a RegisteredClaims_scheme option"
  assumes set: "\<And>v c c'. f ''exp'' v c = Some c' \<Longrightarrow> decodeNumericDate v = Some (ExpiresAt c')"
    and keep: "\<And>k v c c'. k \<noteq> ''exp'' \<Longrightarrow> f k v c = Some c' \<Longrightarrow> ExpiresAt c' = ExpiresAt c"
  shows "decodeMembers f members c0 = Some c \<Longrightarrow> map_of (rev members) ''exp'' = Some v \<Longrightarrow>
         decodeNumericDate v = Some (ExpiresAt c)"
proof (induction members arbitrary: c v rule: rev_induct)
  case Nil
  then show ?case by simp
next
  case (snoc kv members)
  obtain k v' where kv: "kv = (k, v')"
    by (cases kv) auto
  from snoc.prems(1) kv obtain c1 where c1: "decodeMembers f members c0 = Some c1" and last: "f k v' c1 = Some c"
    by (auto simp: decodeMembers_snoc split: option.splits)
  show ?case
  proof (cases "k = ''exp''")
    case True
    with snoc.prems(2) kv have "v' = v" by simp
    with last True show ?thesis by (simp add: set)
  next
    case False
    with snoc.prems(2) kv have "map_of (rev members) ''exp'' = Some v" by simp
    from snoc.IH [OF c1 this] keep [OF False last] show ?thesis by simp
  qed
qed

lemma decodeRegisteredField_exp:
  "decodeRegisteredField ''exp'' v c = Some c' \<Longrightarrow> decodeNumericDate v = Some (ExpiresAt c')"
  by (auto simp: decodeRegisteredField_def)

lemma decodeRegisteredField_keeps_exp:
  "k \<noteq> ''exp'' \<Longrightarrow> decodeRegisteredField k v c = Some c' \<Longrightarrow> ExpiresAt c' = ExpiresAt c"
  by (auto simp: decodeRegisteredField_def split: if_splits)

lemma unmarshalAccessClaims_exp:
  assumes "unmarshalAccessClaims members = Some c" and "map_of (rev members) ''exp'' = Some (JNumber t)"
  shows "ExpiresAt c = Some t"
proof -
  have "decodeNumericDate (JNumber t) = Some (ExpiresAt c)"
  proof (rule decoded_exp [where f = decodeAccessField])
    show "decodeMembers decodeAccessField members emptyAccessClaims = Some c"
      using assms(1) by (simp add: unmarshalAccessClaims_def)
    show "map_of (rev members) ''exp'' = Some (JNumber t)" by fact
  next
    fix v c c' assume "decodeAccessField ''exp'' v c = Some c'"
    then show "decodeNumericDate v = Some (ExpiresAt c')"
      by (simp add: decodeAccessField_def decodeRegisteredField_exp)
  next
    fix k v c c' assume "k \<noteq> ''exp''" and "decodeAccessField k v c = Some c'"
    then show "ExpiresAt c' = ExpiresAt c"
      by (auto simp: decodeAccessField_def decodeRegisteredField_keeps_exp split: if_splits)
  qed
  then show ?thesis by simp
qed

lemma unmarshalRefreshClaims_exp:
  assumes "unmarshalRefreshClaims members = Some c" and "map_of (rev members) ''exp'' = Some (JNumber t)"
  shows "ExpiresAt c = Some t"
proof -
  have "decodeNumericDate (JNumber t) = Some (ExpiresAt c)"
  proof (rule decoded_exp [where f = decodeRefreshField])
    show "decodeMembers decodeRefreshField members emptyRefreshClaims = Some c"
      using assms(1) by (simp add: unmarshalRefreshClaims_def)
    show "map_of (rev members) ''exp'' = Some (JNumber t)" by fact
  next
    fix v c c' assume "decodeRefreshField ''exp'' v c = Some c'"
    then show "decodeNumericDate v = Some (ExpiresAt c')"
      by (simp add: decodeRefreshField_def decodeRegisteredField_exp)
  next
    fix k v c c' assume "k \<noteq> ''exp''" and "decodeRefreshField k v c = Some c'"
    then show "ExpiresAt c' = ExpiresAt c"
      by (auto simp: decodeRefreshField_def decodeRegisteredField_keeps_exp split: if_splits)
  qed
  then show ?thesis by simp
qed

lemma tokenExpiresAt_members:
  assumes "tokenExpiresAt tokenString = Some t"
  obtains alg members sig where "tokenString = Compact alg members sig"
    and "map_of (rev members) ''exp'' = Some (JNumber t)"
proof (cases tokenString)
  case (Malformed s)
  with assms show ?thesis by simp
next
  case (Compact alg members sig)
  with assms have "map_of (rev members) ''exp'' = Some (JNumber t)"
    by (auto split: option.splits json.splits)
  with Compact that show ?thesis by blast
qed

lemma expired_parse_access:
  assumes "tokenExpiresAt tokenString = Some t" and "t * 1000000000 \<le> now"
  shows "isl (ParseWithClaims tokenString unmarshalAccessClaims keyf now)"
proof -
  from assms(1) obtain alg members sig where tok: "tokenString = Compact alg members sig"
    and exp: "map_of (rev members) ''exp'' = Some (JNumber t)"
    by (rule tokenExpiresAt_members)
  show ?thesis
  proof (cases "unmarshalAccessClaims members")
    case None
    then show ?thesis by (simp add: tok ParseWithClaims_def)
  next
    case (Some c)
    from unmarshalAccessClaims_exp [OF Some exp] assms(2) have "\<not> Validate c now"
      by (simp add: Validate_def)
    then show ?thesis using Some
      by (simp add: tok ParseWithClaims_def split: sum.splits)
  qed
qed

lemma expired_parse_refresh:
  assumes "tokenExpiresAt tokenString = Some t" and "t * 1000000000 \<le> now"
  shows "isl (ParseWithClaims tokenString unmarshalRefreshClaims keyf now)"
proof -
  from assms(1) obtain alg members sig where tok: "tokenString = Compact alg members sig"
    and exp: "map_of (rev members) ''exp'' = Some (JNumber t)"
    by (rule tokenExpiresAt_members)
  show ?thesis
  proof (cases "unmarshalRefreshClaims members")
    case None
    then show ?thesis by (simp add: tok ParseWithClaims_def)
  next
    case (Some c)
    from unmarshalRefreshClaims_exp [OF Some exp] assms(2) have "\<not> Validate c now"
      by (simp add: Validate_def)
    then show ?thesis using Some
      by (simp add: tok ParseWithClaims_def split: sum.splits)
  qed
qed

text \<open>
  Claim C2. A token whose expiry is not after the clock reading of the verification is
  answered with Unauthorized by the access-token verifier and by the refresh-token
  verifier, whatever its method, its other members, its signature and the secret are;
  no claims are returned.
\<close>

theorem expired_token_rejected:
  assumes "tokenExpiresAt tokenString = Some t" and "t * 1000000000 \<le> now"
  shows "VerifyToken secret tokenString False now m
           = (Inl (Custom ErrUnauthorized), SetDetails ErrUnauthorized ''Invalid token'' m) \<and>
         VerifyToken secret tokenString True now m
           = (Inl (Custom ErrUnauthorized), SetDetails ErrUnauthorized ''Invalid refresh token'' m) \<and>
         VerifyRefreshToken tokenString secret now m
           = (Inl (Custom ErrUnauthorized), SetDetails ErrUnauthorized ''Invalid refresh token'' m)"
proof -
  from expired_parse_access [OF assms, of "keyFunc secret"] obtain e1
    where e1: "ParseWithClaims tokenString unmarshalAccessClaims (keyFunc secret) now = Inl e1"
    by (cases "ParseWithClaims tokenString unmarshalAccessClaims (keyFunc secret) now") auto
  from expired_parse_refresh [OF assms, of "keyFunc secret"] obtain e2
    where e2: "ParseWithClaims tokenString unmarshalRefreshClaims (keyFunc secret) now = Inl e2"
    by (cases "ParseWithClaims tokenString unmarshalRefreshClaims (keyFunc secret) now") auto
  show ?thesis
    by (simp add: VerifyToken_def VerifyRefreshToken_def e1 e2)
qed

text \<open>The access token of alice, rightly signed, at the very instant of its expiry.\<close>

theorem expired_token_rejected_witness:
  "tokenExpiresAt (fst (fst (GenerateAuthTokens alice ''s3cret'' 1 720 steadyClock NewPermissionService)))
     = Some 1700003600 \<and>
   (1700003600::int) * 1000000000 \<le> 1700003600000000000 \<and>
   VerifyToken ''s3cret''
       (fst (fst (GenerateAuthTokens alice ''s3cret'' 1 720 steadyClock NewPermissionService)))
       False 1700003600000000000 NewPermissionService
     = (Inl (Custom ErrUnauthorized), SetDetails ErrUnauthorized ''Invalid token'' NewPermissionService)"
proof -
  have hv: "hours 1 = 3600000000000"
    by (simp add: hours_valid)
  have h1: "tokenExpiresAt (fst (fst (GenerateAuthTokens alice ''s3cret'' 1 720 steadyClock NewPermissionService)))
     = Some 1700003600"
    by (simp add: steadyClock_def GenerateAuthTokens_eq accessMembers_def hv NewNumericDate_def)
  have h2: "(1700003600::int) * 1000000000 \<le> 1700003600000000000"
    by simp
  show ?thesis
    using h1 h2 expired_token_rejected [OF h1 h2, of "''s3cret''" NewPermissionService] by simp
qed

text \<open>
  Claim C5, as the code has it. For an account whose IDs are Go integers, a lifetime of
  1 to 2562047 hours (the longest that fits a \<^verbatim>\<open>time.Duration\<close>) and clock readings that
  fit the 64 bits of \<^verbatim>\<open>UnixNano\<close> (so that every date is one that the library reads
  exactly), the access token of \<^verbatim>\<open>GenerateAuthTokens\<close>, verified with the same secret
  before it expires, gives claims with the account's ID and role ID. Their username is
  the account's as JSON carries it, with U+FFFD for every byte that is not part of valid
  UTF-8, and so it is the account's username exactly when that is valid UTF-8. The expiry
  is the first clock reading, cut to the second, plus the lifetime; the issue time is the
  second clock reading, cut to the second. The expiry is therefore the issue time plus
  the lifetime exactly when the two readings fall into the same second.
\<close>

theorem issued_access_token_verifies:
  assumes "isInt64 (ID account)" and "isInt64 (RoleID account)"
    and "0 < accessExpiresHours" and "accessExpiresHours \<le> 2562047"
    and "isInt64 now1" and "isInt64 now2"
    and "GenerateAuthTokens account secret accessExpiresHours refreshExpiresHours (now1, now2, now3, now4) m
           = ((accessToken, refreshToken, err), m1)"
    and "t < (now1 div 1000000000 + accessExpiresHours * 3600) * 1000000000"
  shows "VerifyToken secret accessToken False t m2 =
           (Inr (OfAccess \<lparr>Issuer = ''fastener-api'', Subject = itoa (ID account), Audience = [],
                  ExpiresAt = Some (now1 div 1000000000 + accessExpiresHours * 3600),
                  NotBefore = None, IssuedAt = Some (now2 div 1000000000), JwtID = [],
                  access_AccountID = ID account, access_Username = coerceUTF8 (Username account),
                  access_RoleID = RoleID account\<rparr>), m2) \<and>
         ((coerceUTF8 (Username account) = Username account) = validUTF8 (Username account)) \<and>
         ((now1 div 1000000000 + accessExpiresHours * 3600 = now2 div 1000000000 + accessExpiresHours * 3600)
            = (now1 div 1000000000 = now2 div 1000000000))"
proof -
  have e: "NewNumericDate (now1 + hours accessExpiresHours) = now1 div 1000000000 + accessExpiresHours * 3600"
    using assms(3,4) by (simp add: NewNumericDate_hours)
  from assms(7) have a: "accessToken =
      Compact HS256 (accessMembers account (now1 div 1000000000 + accessExpiresHours * 3600) (now2 div 1000000000))
        (HMAC HS256 secret
           (accessMembers account (now1 div 1000000000 + accessExpiresHours * 3600) (now2 div 1000000000)))"
    by (simp add: GenerateAuthTokens_eq e) (simp add: NewNumericDate_def)
  show ?thesis
    using assms(1,2,8) by (simp add: VerifyToken_def a parse_access_of_accessMembers coerceUTF8_fixes_iff)
qed

text \<open>The access token of alice, whose username is valid UTF-8, one second after issue.\<close>

theorem issued_access_token_verifies_witness:
  "isInt64 (ID alice) \<and> isInt64 (RoleID alice) \<and> (0::int) < 1 \<and> (1::int) \<le> 2562047 \<and>
   isInt64 1700000000000000100 \<and> isInt64 1700000000000000200 \<and>
   (1700000001000000000::int) < (1700000000000000100 div 1000000000 + 1 * 3600) * 1000000000 \<and>
   validUTF8 (Username alice) \<and>
   VerifyToken ''s3cret''
       (fst (fst (GenerateAuthTokens alice ''s3cret'' 1 720 steadyClock NewPermissionService)))
       False 1700000001000000000 NewPermissionService
     = (Inr (OfAccess \<lparr>Issuer = ''fastener-api'', Subject = ''7'', Audience = [],
              ExpiresAt = Some 1700003600, NotBefore = None, IssuedAt = Some 1700000000, JwtID = [],
              access_AccountID = 7, access_Username = ''alice'', access_RoleID = 2\<rparr>),
        NewPermissionService)"
proof -
  have h1: "isInt64 (ID alice)" and h2: "isInt64 (RoleID alice)"
    by (simp_all add: isInt64_def alice_def)
  have h3: "(0::int) < 1" and h4: "(1::int) \<le> 2562047"
    by simp_all
  have c1: "isInt64 1700000000000000100" and c2: "isInt64 1700000000000000200"
    by (simp_all add: isInt64_def)
  have g: "GenerateAuthTokens alice ''s3cret'' 1 720
             (1700000000000000100, 1700000000000000200, 1700000000000000300, 1700000000000000400)
             NewPermissionService
           = ((fst (fst (GenerateAuthTokens alice ''s3cret'' 1 720 steadyClock NewPermissionService)),
               fst (snd (fst (GenerateAuthTokens alice ''s3cret'' 1 720 steadyClock NewPermissionService))),
               None), NewPermissionService)"
    by (simp add: GenerateAuthTokens_eq steadyClock_def)
  have h6: "(1700000001000000000::int) < (1700000000000000100 div 1000000000 + 1 * 3600) * 1000000000"
    by simp
  have u: "validUTF8 (Username alice)"
    by (simp add: alice_def validUTF8_alice)
  have eq: "coerceUTF8 (Username alice) = Username alice"
    using issued_access_token_verifies [OF h1 h2 h3 h4 c1 c2 g h6, of NewPermissionService] u by simp
  show ?thesis
    using h1 h2 c1 c2 h6 u eq issued_access_token_verifies [OF h1 h2 h3 h4 c1 c2 g h6, of NewPermissionService]
    by (simp add: alice_def itoa_7)
qed

text \<open>
  An account whose username holds the byte FF, which is not valid UTF-8: the verified
  claims carry U+FFFD in its place.
\<close>

lemma invalid_username_comes_back_coerced:
  "VerifyToken ''s3cret''
       (fst (fst (GenerateAuthTokens (alice\<lparr>Username := [CHR ''a'', CHR 0xFF, CHR ''b'']\<rparr>) ''s3cret'' 1 720
                    steadyClock NewPermissionService)))
       False 1700000001000000000 NewPermissionService
     = (Inr (OfAccess \<lparr>Issuer = ''fastener-api'', Subject = ''7'', Audience = [],
              ExpiresAt = Some 1700003600, NotBefore = None, IssuedAt = Some 1700000000, JwtID = [],
              access_AccountID = 7,
              access_Username = [CHR ''a'', CHR 0xEF, CHR 0xBF, CHR 0xBD, CHR ''b''],
              access_RoleID = 2\<rparr>),
        NewPermissionService)"
proof -
  have hv: "hours 1 = 3600000000000"
    by (simp add: hours_valid)
  have i: "isInt64 7" "isInt64 2"
    by (simp_all add: isInt64_def)
  show ?thesis
    by (simp add: steadyClock_def GenerateAuthTokens_eq VerifyToken_def parse_access_of_accessMembers
        hv NewNumericDate_def alice_def i itoa_7 coerceUTF8_invalid_byte)
qed

text \<open>
  Claim C5 as stated fails when the clock passes a full second between the two readings:
  the verified claims expire 3599 seconds after their issue time, with a lifetime of one
  hour.
\<close>

theorem expiry_is_not_issue_time_plus_ttl:
  "VerifyToken ''s3cret''
       (fst (fst (GenerateAuthTokens alice ''s3cret'' 1 720 tickingClock NewPermissionService)))
       False 1700000002000000000 NewPermissionService
     = (Inr (OfAccess \<lparr>Issuer = ''fastener-api'', Subject = ''7'', Audience = [],
              ExpiresAt = Some 1700003600, NotBefore = None, IssuedAt = Some 1700000001, JwtID = [],
              access_AccountID = 7, access_Username = ''alice'', access_RoleID = 2\<rparr>),
        NewPermissionService) \<and>
   (1700003600::int) \<noteq> 1700000001 + 1 * 3600"
proof -
  have hv: "hours 1 = 3600000000000"
    by (simp add: hours_valid)
  have i: "isInt64 7" "isInt64 2"
    by (simp_all add: isInt64_def)
  show ?thesis
    by (simp add: tickingClock_def GenerateAuthTokens_eq VerifyToken_def parse_access_of_accessMembers
        hv NewNumericDate_def alice_def i itoa_7 coerceUTF8_alice)
qed

section \<open>Sessions\<close>

text \<open>
  Claim C8. A login with a username that the store does not have and a login with a
  username that it has and a password that does not match the stored hash both return
  the error variable \<^verbatim>\<open>ErrUnauthorized\<close>, and in both runs a reader of it finds the same
  code, message and details, whatever the services, clocks and memories of the two runs
  are.
\<close>

theorem Login_invalid_credentials_alike:
  assumes "FindByUsername (accountRepo s) username = Inr None"
    and "FindByUsername (accountRepo s') username' = Inr (Some account)"
    and "\<not> CheckPasswordHash bc' password' (Password account)"
  shows "fst (Login bc s username password now m) = Inl (Custom ErrUnauthorized) \<and>
         fst (Login bc' s' username' password' now' m') = Inl (Custom ErrUnauthorized) \<and>
         deref (snd (Login bc s username password now m)) ErrUnauthorized
           = \<lparr>Code = 401, Message = ''Unauthorized'', Details = Some ''Invalid credentials''\<rparr> \<and>
         deref (snd (Login bc' s' username' password' now' m')) ErrUnauthorized
           = \<lparr>Code = 401, Message = ''Unauthorized'', Details = Some ''Invalid credentials''\<rparr>"
  using assms by (simp add: Login_def SetDetails_def deref_def)

theorem Login_invalid_credentials_alike_witness:
  "FindByUsername (accountRepo exampleService) ''mallory'' = Inr None \<and>
   FindByUsername (accountRepo exampleService) ''alice'' = Inr (Some alice) \<and>
   \<not> CheckPasswordHash exampleBcrypt ''guess'' (Password alice) \<and>
   fst (Login exampleBcrypt exampleService ''mallory'' ''guess'' steadyClock NewPermissionService)
     = Inl (Custom ErrUnauthorized) \<and>
   fst (Login exampleBcrypt exampleService ''alice'' ''guess'' steadyClock NewPermissionService)
     = Inl (Custom ErrUnauthorized) \<and>
   deref (snd (Login exampleBcrypt exampleService ''mallory'' ''guess'' steadyClock NewPermissionService))
       ErrUnauthorized
     = deref (snd (Login exampleBcrypt exampleService ''alice'' ''guess'' steadyClock NewPermissionService))
         ErrUnauthorized"
proof -
  have h1: "FindByUsername (accountRepo exampleService) ''mallory'' = Inr None"
    by (simp add: exampleService_def exampleAccounts_def)
  have h2: "FindByUsername (accountRepo exampleService) ''alice'' = Inr (Some alice)"
    by (simp add: exampleService_def exampleAccounts_def)
  have h3: "\<not> CheckPasswordHash exampleBcrypt ''guess'' (Password alice)"
    by (simp add: CheckPasswordHash_def exampleBcrypt_def alice_def)
  show ?thesis
    using h1 h2 h3
      Login_invalid_credentials_alike [OF h1 h2 h3, of exampleBcrypt "''guess''" steadyClock
        NewPermissionService steadyClock NewPermissionService]
    by simp
qed








text \<open>
  Claim C9. A refresh token that does not verify is answered with Unauthorized. For one
  that verifies: when the store has no account of the ID in its claims, the answer is
  Unauthorized and no token is made; when the store returns an account, the new access
  token is the one signed over that account's members, so its role ID is the one the
  store returned, and nothing of the old token but the ID it was looked up by enters it.
\<close>

theorem RefreshToken_reloads_account:
  "(\<forall>e m1. VerifyRefreshToken refreshToken (jwtSecret s) now0 m = (Inl e, m1) \<longrightarrow>
      fst (RefreshToken s refreshToken now0 (now1, now2, now3, now4) m) = Inl (Custom ErrUnauthorized)) \<and>
   (\<forall>claims m1. VerifyRefreshToken refreshToken (jwtSecret s) now0 m = (Inr claims, m1) \<longrightarrow>
      (FindByID (accountRepo s) (refresh_AccountID claims) = Inr None \<longrightarrow>
         RefreshToken s refreshToken now0 (now1, now2, now3, now4) m =
           (Inl (Custom ErrUnauthorized),
            SetDetails ErrUnauthorized ''Invalid refresh token: Account not found'' m1)) \<and>
      (\<forall>account. FindByID (accountRepo s) (refresh_AccountID claims) = Inr (Some account) \<longrightarrow>
         RefreshToken s refreshToken now0 (now1, now2, now3, now4) m =
           (Inr (Compact HS256
                   (accessMembers account (NewNumericDate (now1 + hours (jwtAccessExpires s)))
                      (NewNumericDate now2))
                   (HMAC HS256 (jwtSecret s)
                      (accessMembers account (NewNumericDate (now1 + hours (jwtAccessExpires s)))
                         (NewNumericDate now2)))), m1) \<and>
         map_of (accessMembers account (NewNumericDate (now1 + hours (jwtAccessExpires s)))
                   (NewNumericDate now2)) ''role_id''
           = Some (JNumber (RoleID account))))"
  by (simp add: RefreshToken_def GenerateAuthTokens_eq accessMembers_def)

text \<open>
  A string that is no token; the refresh token of bob, whose account is gone from the
  store; and the refresh token of alice, whose account is there.
\<close>

theorem RefreshToken_reloads_account_witness:
  "fst (RefreshToken exampleService (Malformed ''not.a.token'') 1700000001000000000
         (1700000001000000100, 1700000001000000200, 1700000001000000300, 1700000001000000400)
         NewPermissionService)
     = Inl (Custom ErrUnauthorized) \<and>
   VerifyRefreshToken
       (fst (snd (fst (GenerateAuthTokens bob ''s3cret'' 1 720 steadyClock NewPermissionService))))
       (jwtSecret exampleService) 1700000001000000000 NewPermissionService
     = (Inr \<lparr>Issuer = ''fastener-api'', Subject = ''9'', Audience = [], ExpiresAt = Some 1702592000,
             NotBefore = None, IssuedAt = Some 1700000000, JwtID = [], refresh_AccountID = 9\<rparr>,
        NewPermissionService) \<and>
   FindByID (accountRepo exampleService) 9 = Inr None \<and>
   RefreshToken exampleService
       (fst (snd (fst (GenerateAuthTokens bob ''s3cret'' 1 720 steadyClock NewPermissionService))))
       1700000001000000000
       (1700000001000000100, 1700000001000000200, 1700000001000000300, 1700000001000000400)
       NewPermissionService
     = (Inl (Custom ErrUnauthorized),
        SetDetails ErrUnauthorized ''Invalid refresh token: Account not found'' NewPermissionService) \<and>
   FindByID (accountRepo exampleService) 7 = Inr (Some (alice\<lparr>Password := []\<rparr>)) \<and>
   RefreshToken exampleService
       (fst (snd (fst (GenerateAuthTokens alice ''s3cret'' 1 720 steadyClock NewPermissionService))))
       1700000001000000000
       (1700000001000000100, 1700000001000000200, 1700000001000000300, 1700000001000000400)
       NewPermissionService
     = (Inr (Compact HS256
               (accessMembers (alice\<lparr>Password := []\<rparr>) 1700003601 1700000001)
               (HMAC HS256 ''s3cret'' (accessMembers (alice\<lparr>Password := []\<rparr>) 1700003601 1700000001))),
        NewPermissionService)"
proof -
  have hv: "hours 720 = 2592000000000000" "hours 1 = 3600000000000"
    by (simp_all add: hours_valid)
  have i: "isInt64 9" "isInt64 7"
    by (simp_all add: isInt64_def)
  have i9: "itoa 9 = ''9''"
    by (simp add: itoa_def digits.simps)
  have bad: "VerifyRefreshToken (Malformed ''not.a.token'') (jwtSecret exampleService) 1700000001000000000
        NewPermissionService
      = (Inl (Custom ErrUnauthorized), SetDetails ErrUnauthorized ''Invalid refresh token'' NewPermissionService)"
    by (simp add: VerifyRefreshToken_def ParseWithClaims_def)
  have v: "VerifyRefreshToken
       (fst (snd (fst (GenerateAuthTokens bob ''s3cret'' 1 720 steadyClock NewPermissionService))))
       (jwtSecret exampleService) 1700000001000000000 NewPermissionService
     = (Inr \<lparr>Issuer = ''fastener-api'', Subject = ''9'', Audience = [], ExpiresAt = Some 1702592000,
             NotBefore = None, IssuedAt = Some 1700000000, JwtID = [], refresh_AccountID = 9\<rparr>,
        NewPermissionService)"
    by (simp add: steadyClock_def GenerateAuthTokens_eq VerifyRefreshToken_def exampleService_def
        parse_refresh_of_refreshMembers hv NewNumericDate_def bob_def i i9)
  have va: "VerifyRefreshToken
       (fst (snd (fst (GenerateAuthTokens alice ''s3cret'' 1 720 steadyClock NewPermissionService))))
       (jwtSecret exampleService) 1700000001000000000 NewPermissionService
     = (Inr \<lparr>Issuer = ''fastener-api'', Subject = ''7'', Audience = [], ExpiresAt = Some 1702592000,
             NotBefore = None, IssuedAt = Some 1700000000, JwtID = [], refresh_AccountID = 7\<rparr>,
        NewPermissionService)"
    by (simp add: steadyClock_def GenerateAuthTokens_eq VerifyRefreshToken_def exampleService_def
        parse_refresh_of_refreshMembers hv NewNumericDate_def alice_def i itoa_7)
  have gone: "FindByID (accountRepo exampleService) 9 = Inr None"
    by (simp add: exampleService_def exampleAccounts_def)
  have there: "FindByID (accountRepo exampleService) 7 = Inr (Some (alice\<lparr>Password := []\<rparr>))"
    by (simp add: exampleService_def exampleAccounts_def)
  have cfg: "jwtSecret exampleService = ''s3cret''" "jwtAccessExpires exampleService = 1"
    by (simp_all add: exampleService_def)
  have exp: "NewNumericDate (1700000001000000100 + hours 1) = 1700003601"
    "NewNumericDate 1700000001000000200 = 1700000001"
    by (simp_all add: hv NewNumericDate_def)
  show ?thesis
    using bad v va gone there
      RefreshToken_reloads_account [of "Malformed ''not.a.token''"
        exampleService 1700000001000000000 NewPermissionService
        1700000001000000100 1700000001000000200 1700000001000000300 1700000001000000400]
      RefreshToken_reloads_account [of
        "fst (snd (fst (GenerateAuthTokens bob ''s3cret'' 1 720 steadyClock NewPermissionService)))"
        exampleService 1700000001000000000 NewPermissionService
        1700000001000000100 1700000001000000200 1700000001000000300 1700000001000000400]
      RefreshToken_reloads_account [of
        "fst (snd (fst (GenerateAuthTokens alice ''s3cret'' 1 720 steadyClock NewPermissionService)))"
        exampleService 1700000001000000000 NewPermissionService
        1700000001000000100 1700000001000000200 1700000001000000300 1700000001000000400]
    by (simp add: cfg exp)
qed

end
